theory Spec2Isabelle
  imports Complex_Main
begin

section \<open>JavaScript values used by the report page\<close>

text \<open>
  A JavaScript \<open>number\<close> is an IEEE double: a finite value, one of the two infinities,
  or NaN. The page only compares numbers with zero and tests their truthiness, so a
  finite value is kept as a real and the three special values are constructors.
  Every comparison with NaN is false, which is why \<open>x <= 0\<close> and \<open>x > 0\<close> are two
  functions and not each other's negation.
\<close>

datatype number = NaN | NegInf | Num real | PosInf

fun gt_zero :: "number \<Rightarrow> bool" where
  "gt_zero NaN = False"
| "gt_zero NegInf = False"
| "gt_zero (Num r) = (0 < r)"
| "gt_zero PosInf = True"

fun le_zero :: "number \<Rightarrow> bool" where
  "le_zero NaN = False"
| "le_zero NegInf = True"
| "le_zero (Num r) = (r \<le> 0)"
| "le_zero PosInf = False"

fun truthy_number :: "number \<Rightarrow> bool" where
  "truthy_number NaN = False"
| "truthy_number NegInf = True"
| "truthy_number (Num r) = (r \<noteq> 0)"
| "truthy_number PosInf = True"

text \<open>
  An array slot is a hole, the value \<open>undefined\<close>, or a value. Reading a hole gives
  \<open>undefined\<close>; \<open>filter\<close> and \<open>map\<close> skip holes but call their callback on
  \<open>undefined\<close>; spreading an array (\<open>[...xs]\<close>) turns its holes into \<open>undefined\<close>;
  assigning past the end extends the array with holes.
\<close>

datatype 'a elem = Hole | Undefined | Val 'a

definition js_get :: "'a elem list \<Rightarrow> nat \<Rightarrow> 'a option" where
  "js_get xs i =
     (if i < length xs then (case xs ! i of Val v \<Rightarrow> Some v | _ \<Rightarrow> None) else None)"

definition js_spread :: "'a elem list \<Rightarrow> 'a elem list" where
  "js_spread xs = map (\<lambda>e. case e of Hole \<Rightarrow> Undefined | _ \<Rightarrow> e) xs"

definition js_set :: "'a elem list \<Rightarrow> nat \<Rightarrow> 'a \<Rightarrow> 'a elem list" where
  "js_set xs i v =
     (if i < length xs then xs[i := Val v]
      else xs @ replicate (i - length xs) Hole @ [Val v])"

datatype js_error = TypeError | Error string | ErrorEvent

section \<open>The issue draft (\<open>IssueFormData\<close>)\<close>

datatype IssueCase = case1 | case2

text \<open>
  An entry of \<open>case2Data.items\<close>. A property that is absent reads as \<open>undefined\<close>
  (\<open>None\<close>): \<open>{ ...newItems[itemIndex], photo: previewUrl }\<close> on an empty slot builds an
  object that has the \<open>photo\<close> property only.
\<close>

record item =
  sub_item_id :: "string option"
  quantity :: "number option"
  unit_price :: "number option"
  photo :: "string option"

record Case1Data =
  sub_item_id :: string
  quantity :: number
  unit_price :: number
  photos :: "string elem list"

record Case2Data =
  items :: "item elem list"

record IssueFormData =
  caseType :: IssueCase
  main_item_id :: string
  notes' :: string
  case1Data :: Case1Data
  case2Data :: Case2Data

subsection \<open>\<open>validateIssue\<close>\<close>

text \<open>Truthiness of a photo slot in \<open>photos.filter((p) => p)\<close>.\<close>

fun truthy_photo :: "string elem \<Rightarrow> bool" where
  "truthy_photo (Val s) = (s \<noteq> [])"
| "truthy_photo _ = False"

fun truthy_string :: "string option \<Rightarrow> bool" where
  "truthy_string (Some s) = (s \<noteq> [])"
| "truthy_string None = False"

text \<open>\<open>undefined > 0\<close> is false.\<close>

fun gt_zero_opt :: "number option \<Rightarrow> bool" where
  "gt_zero_opt (Some n) = gt_zero n"
| "gt_zero_opt None = False"

text \<open>
  The callback of the \<open>case2\<close> filter:
  \<open>item.sub_item_id && item.photo && item.quantity > 0 && item.unit_price > 0\<close>.
\<close>

definition valid_item :: "item \<Rightarrow> bool" where
  "valid_item it \<longleftrightarrow>
     truthy_string (item.sub_item_id it) \<and> truthy_string (item.photo it) \<and>
     gt_zero_opt (item.quantity it) \<and> gt_zero_opt (item.unit_price it)"

text \<open>
  \<open>items.filter(callback)\<close>: holes are skipped; on an \<open>undefined\<close> entry the callback
  reads a property of \<open>undefined\<close> and throws a TypeError, which ends the filter.
\<close>

fun validItems :: "item elem list \<Rightarrow> js_error + item list" where
  "validItems [] = Inr []"
| "validItems (Hole # xs) = validItems xs"
| "validItems (Undefined # xs) = Inl TypeError"
| "validItems (Val it # xs) =
     (if valid_item it
      then (case validItems xs of Inl e \<Rightarrow> Inl e | Inr ys \<Rightarrow> Inr (it # ys))
      else validItems xs)"

text \<open>
  \<open>validateIssue\<close> reads the draft held in the page state. Its \<open>alert\<close> calls only
  show a message and are left out; the result is the returned boolean, or the error
  thrown.
\<close>

definition validateIssue :: "IssueFormData \<Rightarrow> js_error + bool" where
  "validateIssue currentIssue =
     (if main_item_id currentIssue = [] then Inr False
      else if caseType currentIssue = case1 then
        (if Case1Data.sub_item_id (case1Data currentIssue) = [] then Inr False
         else if length (filter truthy_photo (photos (case1Data currentIssue))) \<noteq> 3
           then Inr False
         else if le_zero (Case1Data.quantity (case1Data currentIssue)) then Inr False
         else if le_zero (Case1Data.unit_price (case1Data currentIssue)) then Inr False
         else Inr True)
      else
        (case validItems (items (case2Data currentIssue)) of
           Inl e \<Rightarrow> Inl e
         | Inr vs \<Rightarrow> if length vs \<noteq> 3 then Inr False else Inr True))"

section \<open>\<open>compressImage\<close>\<close>

text \<open>
  A \<open>File\<close> is known by its byte size, name and MIME type. What the browser does for
  \<open>compressImage\<close> is a parameter: whether \<open>window.Image\<close> exists, the pixel size of
  the decoded image (\<open>None\<close> when \<open>onerror\<close> fires), whether the canvas gives a 2d
  context, the size of the blob that \<open>canvas.toBlob\<close> produces for a canvas of a given
  width and height at a given quality (\<open>None\<close> for a \<open>null\<close> blob), and the text of
  \<open>Date.now()\<close>.
\<close>

record File =
  size' :: nat
  name' :: string
  type' :: string

record browser =
  has_window_Image :: bool
  load_image :: "File \<Rightarrow> (nat \<times> nat) option"
  getContext :: bool
  canvas_toBlob :: "nat \<Rightarrow> nat \<Rightarrow> real \<Rightarrow> nat option"
  Date_now :: string

text \<open>
  The scaling of lines 155 to 162. \<open>width\<close> and \<open>height\<close> become fractions; the canvas
  keeps their integer parts.
\<close>

definition scale_dimensions :: "real \<Rightarrow> real \<Rightarrow> real \<Rightarrow> real \<times> real" where
  "scale_dimensions width height maxDimension =
     (if width > height \<and> width > maxDimension
        then (maxDimension, (height * maxDimension) / width)
      else if height \<ge> width \<and> height > maxDimension
        then ((width * maxDimension) / height, maxDimension)
      else (width, height))"

text \<open>
  The loop of lines 185 to 188, entered with the quality and the blob of the first
  encode. \<open>calls\<close> lists the qualities handed to \<open>toBlob\<close> so far, in order; the
  result is that list together with the final blob size or the rejection of \<open>toBlob\<close>.
  The qualities are kept as exact decimals: the double results differ from them by
  less than \<open>1e-15\<close>, far less than the distance of 0.72, 0.64 and 0.56 from 0.58, so
  every test of the loop is decided the same way.
\<close>

function quality_loop ::
  "(real \<Rightarrow> nat option) \<Rightarrow> real \<Rightarrow> real \<Rightarrow> nat \<Rightarrow> real list
     \<Rightarrow> real list \<times> (js_error + nat)" where
  "quality_loop toBlob targetBytes quality blob calls =
     (if real blob > targetBytes \<and> quality > 0.58 then
        (case toBlob (quality - 0.08) of
           None \<Rightarrow> (calls @ [quality - 0.08], Inl (Error ''Image compression failed''))
         | Some b \<Rightarrow>
             quality_loop toBlob targetBytes (quality - 0.08) b (calls @ [quality - 0.08]))
      else (calls, Inr blob))"
  by pat_completeness auto
termination
proof (relation "measure (\<lambda>(toBlob, targetBytes, quality, blob, calls).
                   nat \<lceil>(quality - 0.58) / 0.08\<rceil>)")
  show "wf (measure (\<lambda>(toBlob :: real \<Rightarrow> nat option, targetBytes :: real, quality :: real,
                        blob :: nat, calls :: real list).
              nat \<lceil>(quality - 0.58) / 0.08\<rceil>))"
    by simp
next
  fix toBlob :: "real \<Rightarrow> nat option" and targetBytes quality :: real
    and blob b :: nat and calls :: "real list"
  assume run: "targetBytes < real blob \<and> 58 / 10\<^sup>2 < quality"
  have step: "(quality - 0.08 - 0.58) / 0.08 = (quality - 0.58) / 0.08 - 1"
    by (simp add: field_simps)
  have "\<lceil>(quality - 0.08 - 0.58) / 0.08\<rceil> = \<lceil>(quality - 0.58) / 0.08\<rceil> - 1"
    unfolding step by simp
  moreover have "0 < \<lceil>(quality - 0.58) / 0.08\<rceil>"
    using run by simp
  ultimately show
    "((toBlob, targetBytes, quality - 8 / 10\<^sup>2, b, calls @ [quality - 8 / 10\<^sup>2]),
      toBlob, targetBytes, quality, blob, calls)
     \<in> measure (\<lambda>(toBlob, targetBytes, quality, blob, calls).
                   nat \<lceil>(quality - 0.58) / 0.08\<rceil>)"
    by simp
qed

declare quality_loop.simps [simp del]

definition compressImage ::
  "browser \<Rightarrow> File \<Rightarrow> real \<Rightarrow> real \<Rightarrow> real list \<times> (js_error + File)" where
  "compressImage env file maxDimension targetSizeKb =
     (if \<not> has_window_Image env then ([], Inr file)
      else
        let targetBytes = targetSizeKb * 1024 in
        if real (size' file) \<le> targetBytes then ([], Inr file)
        else
          (case load_image env file of
             None \<Rightarrow> ([], Inl ErrorEvent)
           | Some (w, h) \<Rightarrow>
               let (width, height) = scale_dimensions (real w) (real h) maxDimension in
               if \<not> getContext env then ([], Inl (Error ''Failed to get canvas context''))
               else
                 let toBlob = canvas_toBlob env (nat \<lfloor>width\<rfloor>) (nat \<lfloor>height\<rfloor>) in
                 (case toBlob 0.72 of
                    None \<Rightarrow> ([0.72], Inl (Error ''Image compression failed''))
                  | Some blob \<Rightarrow>
                      (case quality_loop toBlob targetBytes 0.72 blob [0.72] of
                         (calls, Inl e) \<Rightarrow> (calls, Inl e)
                       | (calls, Inr b) \<Rightarrow>
                           (calls, Inr \<lparr>size' = b, name' = Date_now env @ ''.jpg'',
                                         type' = ''image/jpeg''\<rparr>)))))"

text \<open>The defaults of the parameter list: \<open>maxDimension = 1400\<close>, \<open>targetSizeKb = 900\<close>.\<close>

definition compressImage_default :: "browser \<Rightarrow> File \<Rightarrow> real list \<times> (js_error + File)" where
  "compressImage_default env file = compressImage env file 1400 900"

section \<open>The page state\<close>

text \<open>
  Modelled from the spec: the types \<open>SubItem\<close>, \<open>Issue\<close> and \<open>Report\<close> are declared in
  \<open>@/types\<close>, which is not among the sources. The records below have the fields of
  section 3 of the spec that the page reads. A price or a note that may be \<open>null\<close>
  is an option.
\<close>

record SubItem =
  id' :: string
  unit_price :: number

record IssueItem =
  sub_item_id :: string
  quantity :: number
  unit_price :: "number option"
  sub_items :: "SubItem option"

record IssuePhoto =
  photo_url :: string

record Issue =
  id' :: string
  main_item_id :: string
  notes' :: "string option"
  issue_type :: string
  issue_items :: "IssueItem list"
  issue_photos :: "IssuePhoto list"

record Report =
  id' :: string
  report_issues :: "Issue list option"

datatype dialog_mode = create | edit

text \<open>
  An upload that has been started and has not settled: the rest of
  \<open>handleCase1PhotoUpload\<close> or \<open>handleCase2PhotoUpload\<close> after \<open>await uploadPhoto(file)\<close>,
  which holds the slot index and the preview URL of its call.
\<close>

datatype upload = Case1Upload nat string | Case2Upload nat string

record page =
  currentIssue :: IssueFormData
  editingIssueId :: "string option"
  issueDialogMode :: dialog_mode
  isIssueDialogOpen :: bool
  pendingUploads :: int
  isSavingIssue :: bool
  subItems :: "SubItem list"
  report :: "Report option"
  uploads :: "upload list"
  revoked :: "string list"

text \<open>The empty template of lines 68 to 85, which \<open>resetIssueForm\<close> restores.\<close>

definition empty_item :: item where
  "empty_item =
     \<lparr>item.sub_item_id = Some [], item.quantity = Some (Num 1),
      item.unit_price = Some (Num 0), item.photo = Some []\<rparr>"

definition emptyIssueForm :: IssueFormData where
  "emptyIssueForm =
     \<lparr>caseType = case1, main_item_id = [], notes' = [],
      case1Data = \<lparr>Case1Data.sub_item_id = [], Case1Data.quantity = Num 1,
                   Case1Data.unit_price = Num 0, photos = []\<rparr>,
      case2Data = \<lparr>items = [Val empty_item, Val empty_item, Val empty_item]\<rparr>\<rparr>"

definition initial_page :: page where
  "initial_page =
     \<lparr>currentIssue = emptyIssueForm, editingIssueId = None, issueDialogMode = create,
      isIssueDialogOpen = False, pendingUploads = 0, isSavingIssue = False,
      subItems = [], report = None, uploads = [], revoked = []\<rparr>"

definition getSubItemPrice :: "SubItem list \<Rightarrow> string \<Rightarrow> number" where
  "getSubItemPrice subs subItemId =
     (case find (\<lambda>s. SubItem.id' s = subItemId) subs of
        None \<Rightarrow> Num 0
      | Some s \<Rightarrow> if truthy_number (SubItem.unit_price s) then SubItem.unit_price s else Num 0)"

definition resetIssueForm :: "page \<Rightarrow> page" where
  "resetIssueForm s = s\<lparr>currentIssue := emptyIssueForm, editingIssueId := None\<rparr>"

definition openAddIssueDialog :: "page \<Rightarrow> page" where
  "openAddIssueDialog s =
     (resetIssueForm s)\<lparr>issueDialogMode := create, isIssueDialogOpen := True\<rparr>"

subsection \<open>\<open>openEditIssueDialog\<close>\<close>

definition nth_opt :: "'a list \<Rightarrow> nat \<Rightarrow> 'a option" where
  "nth_opt xs i = (if i < length xs then Some (xs ! i) else None)"

text \<open>\<open>x?.quantity || 1\<close> and \<open>x?.unit_price ?? x?.sub_items?.unit_price ?? 0\<close>.\<close>

definition quantity_or_1 :: "IssueItem option \<Rightarrow> number" where
  "quantity_or_1 x =
     (case x of None \<Rightarrow> Num 1
      | Some it \<Rightarrow> if truthy_number (IssueItem.quantity it) then IssueItem.quantity it
                   else Num 1)"

definition price_or_0 :: "IssueItem option \<Rightarrow> number" where
  "price_or_0 x =
     (case x of None \<Rightarrow> Num 0
      | Some it \<Rightarrow>
          (case IssueItem.unit_price it of
             Some p \<Rightarrow> p
           | None \<Rightarrow> (case sub_items it of None \<Rightarrow> Num 0 | Some sub \<Rightarrow> SubItem.unit_price sub)))"

definition sub_item_id_or_empty :: "IssueItem option \<Rightarrow> string" where
  "sub_item_id_or_empty x = (case x of None \<Rightarrow> [] | Some it \<Rightarrow> IssueItem.sub_item_id it)"

definition photo_url_or_empty :: "IssuePhoto option \<Rightarrow> string" where
  "photo_url_or_empty x = (case x of None \<Rightarrow> [] | Some p \<Rightarrow> photo_url p)"

definition hydrate :: "Issue \<Rightarrow> IssueFormData" where
  "hydrate issue =
     (let theCase = (if issue_type issue = ''single'' then case1 else case2);
          form = emptyIssueForm\<lparr>caseType := theCase,
                   IssueFormData.main_item_id := Issue.main_item_id issue,
                   IssueFormData.notes' :=
                     (case Issue.notes' issue of None \<Rightarrow> [] | Some n \<Rightarrow> n)\<rparr>
      in if theCase = case1 then
           (let item = nth_opt (issue_items issue) 0;
                photos = map photo_url (issue_photos issue)
            in form\<lparr>case1Data :=
                 \<lparr>Case1Data.sub_item_id = sub_item_id_or_empty item,
                  Case1Data.quantity = quantity_or_1 item,
                  Case1Data.unit_price = price_or_0 item,
                  photos = map (\<lambda>idx. Val (case nth_opt photos idx of None \<Rightarrow> [] | Some u \<Rightarrow> u))
                             [0, 1, 2]\<rparr>\<rparr>)
         else
           form\<lparr>case2Data :=
             \<lparr>items = map (\<lambda>idx. Val
                 \<lparr>item.sub_item_id = Some (sub_item_id_or_empty (nth_opt (issue_items issue) idx)),
                  item.quantity = Some (quantity_or_1 (nth_opt (issue_items issue) idx)),
                  item.unit_price = Some (price_or_0 (nth_opt (issue_items issue) idx)),
                  item.photo = Some (photo_url_or_empty (nth_opt (issue_photos issue) idx))\<rparr>)
                 [0, 1, 2]\<rparr>\<rparr>)"

definition openEditIssueDialog :: "Issue \<Rightarrow> page \<Rightarrow> page" where
  "openEditIssueDialog issue s =
     s\<lparr>currentIssue := hydrate issue, editingIssueId := Some (Issue.id' issue),
       issueDialogMode := edit, isIssueDialogOpen := True\<rparr>"

subsection \<open>Photo upload\<close>

text \<open>
  \<open>handleCase1PhotoUpload\<close> hands three updaters to \<open>setCurrentIssue\<close>: one when the
  file is chosen (lines 344 to 348), one when \<open>uploadPhoto\<close> returns (353 to 358) and
  one when it throws (362 to 367). Each copies the array, writes one slot and
  rebuilds the draft around it.
\<close>

definition case1_write :: "nat \<Rightarrow> string \<Rightarrow> IssueFormData \<Rightarrow> IssueFormData" where
  "case1_write index v prev =
     prev\<lparr>case1Data :=
       (case1Data prev)\<lparr>photos := js_set (js_spread (photos (case1Data prev))) index v\<rparr>\<rparr>"

definition case1_preview :: "nat \<Rightarrow> string \<Rightarrow> IssueFormData \<Rightarrow> IssueFormData" where
  "case1_preview index previewUrl prev = case1_write index previewUrl prev"

definition case1_resolved :: "nat \<Rightarrow> string \<Rightarrow> string \<Rightarrow> IssueFormData \<Rightarrow> IssueFormData" where
  "case1_resolved index previewUrl photoUrl prev =
     (if js_get (photos (case1Data prev)) index \<noteq> Some previewUrl then prev
      else case1_write index photoUrl prev)"

definition case1_rejected :: "nat \<Rightarrow> string \<Rightarrow> IssueFormData \<Rightarrow> IssueFormData" where
  "case1_rejected index previewUrl prev =
     (if js_get (photos (case1Data prev)) index \<noteq> Some previewUrl then prev
      else case1_write index [] prev)"

text \<open>
  The same for \<open>handleCase2PhotoUpload\<close> (lines 379 to 383, 388 to 393, 397 to 402).
  \<open>{ ...x, photo: v }\<close> copies the properties of \<open>x\<close>, none if \<open>x\<close> is \<open>undefined\<close>,
  and sets \<open>photo\<close>; \<open>items[itemIndex]?.photo\<close> is \<open>undefined\<close> when the entry is.
\<close>

definition spread_item :: "item option \<Rightarrow> item" where
  "spread_item x =
     (case x of
        None \<Rightarrow> \<lparr>item.sub_item_id = None, item.quantity = None, item.unit_price = None,
                  item.photo = None\<rparr>
      | Some it \<Rightarrow> it)"

definition item_photo :: "item elem list \<Rightarrow> nat \<Rightarrow> string option" where
  "item_photo xs itemIndex =
     (case js_get xs itemIndex of None \<Rightarrow> None | Some it \<Rightarrow> item.photo it)"

definition case2_write :: "nat \<Rightarrow> string \<Rightarrow> IssueFormData \<Rightarrow> IssueFormData" where
  "case2_write itemIndex v prev =
     (let newItems = js_spread (items (case2Data prev))
      in prev\<lparr>case2Data :=
           \<lparr>items = js_set newItems itemIndex
                      ((spread_item (js_get newItems itemIndex))\<lparr>item.photo := Some v\<rparr>)\<rparr>\<rparr>)"

definition case2_preview :: "nat \<Rightarrow> string \<Rightarrow> IssueFormData \<Rightarrow> IssueFormData" where
  "case2_preview itemIndex previewUrl prev = case2_write itemIndex previewUrl prev"

definition case2_resolved :: "nat \<Rightarrow> string \<Rightarrow> string \<Rightarrow> IssueFormData \<Rightarrow> IssueFormData" where
  "case2_resolved itemIndex previewUrl photoUrl prev =
     (if item_photo (items (case2Data prev)) itemIndex \<noteq> Some previewUrl then prev
      else case2_write itemIndex photoUrl prev)"

definition case2_rejected :: "nat \<Rightarrow> string \<Rightarrow> IssueFormData \<Rightarrow> IssueFormData" where
  "case2_rejected itemIndex previewUrl prev =
     (if item_photo (items (case2Data prev)) itemIndex \<noteq> Some previewUrl then prev
      else case2_write itemIndex [] prev)"

text \<open>
  The handlers up to \<open>await uploadPhoto(file)\<close>: nothing happens without a file;
  otherwise the preview is shown, the counter goes up by one and the upload is in
  flight. \<open>previewUrl\<close> is what \<open>URL.createObjectURL(file)\<close> returned.
\<close>

definition handleCase1PhotoUpload :: "nat \<Rightarrow> File option \<Rightarrow> string \<Rightarrow> page \<Rightarrow> page" where
  "handleCase1PhotoUpload index file previewUrl s =
     (case file of
        None \<Rightarrow> s
      | Some f \<Rightarrow>
          s\<lparr>currentIssue := case1_preview index previewUrl (currentIssue s),
            pendingUploads := pendingUploads s + 1,
            uploads := uploads s @ [Case1Upload index previewUrl]\<rparr>)"

definition handleCase2PhotoUpload :: "nat \<Rightarrow> File option \<Rightarrow> string \<Rightarrow> page \<Rightarrow> page" where
  "handleCase2PhotoUpload itemIndex file previewUrl s =
     (case file of
        None \<Rightarrow> s
      | Some f \<Rightarrow>
          s\<lparr>currentIssue := case2_preview itemIndex previewUrl (currentIssue s),
            pendingUploads := pendingUploads s + 1,
            uploads := uploads s @ [Case2Upload itemIndex previewUrl]\<rparr>)"

text \<open>
  The handlers after the \<open>await\<close>: \<open>uploadPhoto\<close> returned \<open>photoUrl\<close> (\<open>Some\<close>) or threw
  (\<open>None\<close>); the \<open>try\<close> or the \<open>catch\<close> updater runs, then the \<open>finally\<close> block lowers
  the counter with \<open>Math.max(0, count - 1)\<close> and revokes the preview URL.
\<close>

fun settle_draft :: "upload \<Rightarrow> string option \<Rightarrow> IssueFormData \<Rightarrow> IssueFormData" where
  "settle_draft (Case1Upload index previewUrl) (Some photoUrl) prev =
     case1_resolved index previewUrl photoUrl prev"
| "settle_draft (Case1Upload index previewUrl) None prev =
     case1_rejected index previewUrl prev"
| "settle_draft (Case2Upload itemIndex previewUrl) (Some photoUrl) prev =
     case2_resolved itemIndex previewUrl photoUrl prev"
| "settle_draft (Case2Upload itemIndex previewUrl) None prev =
     case2_rejected itemIndex previewUrl prev"

fun previewUrl_of :: "upload \<Rightarrow> string" where
  "previewUrl_of (Case1Upload index previewUrl) = previewUrl"
| "previewUrl_of (Case2Upload itemIndex previewUrl) = previewUrl"

definition upload_settled :: "upload \<Rightarrow> string option \<Rightarrow> page \<Rightarrow> page" where
  "upload_settled u outcome s =
     s\<lparr>currentIssue := settle_draft u outcome (currentIssue s),
       pendingUploads := max 0 (pendingUploads s - 1),
       revoked := revoked s @ [previewUrl_of u]\<rparr>"

subsection \<open>The form controls\<close>

text \<open>\<open>n || d\<close> on numbers: \<open>d\<close> when \<open>n\<close> is 0 or NaN.\<close>

definition or_number :: "number \<Rightarrow> number \<Rightarrow> number" where
  "or_number n d = (if truthy_number n then n else d)"

text \<open>
  The three controls of a \<open>case2\<close> entry (lines 1185 to 1239) copy the array and then
  assign a property of \<open>newItems[itemIndex]\<close>, which throws a TypeError when that
  entry is \<open>undefined\<close>; the draft is then not replaced.
\<close>

definition case2_assign ::
  "nat \<Rightarrow> (item \<Rightarrow> item) \<Rightarrow> IssueFormData \<Rightarrow> js_error + IssueFormData" where
  "case2_assign itemIndex f cur =
     (let newItems = js_spread (items (case2Data cur))
      in case js_get newItems itemIndex of
           None \<Rightarrow> Inl TypeError
         | Some it \<Rightarrow> Inr (cur\<lparr>case2Data := \<lparr>items = newItems[itemIndex := Val (f it)]\<rparr>\<rparr>))"

text \<open>
  What can happen to the page. A number carried by an event is the result of
  \<open>parseInt\<close> or \<open>parseFloat\<close> on the text of the input; the string of a
  \<open>PhotoChosen\<close> event is the preview URL made for the file. The handlers of the
  controls read \<open>currentIssue\<close> as it was rendered, and the model hands them the
  draft of the current state: the page has rendered since the draft last changed.
  In place of \<open>handleSaveIssue\<close> the events list what it does to the page when it
  ends: \<open>ReportLoaded\<close>, \<open>FormReset\<close> and \<open>DialogOpenChanged False\<close>.
\<close>

datatype event =
    MainItemSelected string
  | CaseTypeSelected IssueCase
  | Case1SubItemSelected string
  | Case1QuantityChanged number
  | Case1PriceChanged number
  | Case1PhotoChosen nat "File option" string
  | Case2SubItemSelected nat string
  | Case2QuantityChanged nat number
  | Case2PriceChanged nat number
  | Case2PhotoChosen nat "File option" string
  | NotesChanged string
  | UploadSettled nat "string option"
  | AddIssueClicked
  | EditIssueClicked Issue
  | DialogOpenChanged bool
  | FormReset
  | ItemsLoaded "SubItem list"
  | ReportLoaded "Report option"

definition set_draft :: "js_error + IssueFormData \<Rightarrow> page \<Rightarrow> page" where
  "set_draft r s = (case r of Inl e \<Rightarrow> s | Inr d \<Rightarrow> s\<lparr>currentIssue := d\<rparr>)"

fun step :: "event \<Rightarrow> page \<Rightarrow> page" where
  "step (MainItemSelected v) s =
     s\<lparr>currentIssue := (currentIssue s)\<lparr>IssueFormData.main_item_id := v\<rparr>\<rparr>"
| "step (CaseTypeSelected c) s =
     s\<lparr>currentIssue := (currentIssue s)\<lparr>caseType := c\<rparr>\<rparr>"
| "step (Case1SubItemSelected v) s =
     s\<lparr>currentIssue := (currentIssue s)\<lparr>case1Data :=
         (case1Data (currentIssue s))\<lparr>Case1Data.sub_item_id := v,
            Case1Data.unit_price := getSubItemPrice (subItems s) v\<rparr>\<rparr>\<rparr>"
| "step (Case1QuantityChanged n) s =
     s\<lparr>currentIssue := (currentIssue s)\<lparr>case1Data :=
         (case1Data (currentIssue s))\<lparr>Case1Data.quantity := or_number n (Num 1)\<rparr>\<rparr>\<rparr>"
| "step (Case1PriceChanged n) s =
     s\<lparr>currentIssue := (currentIssue s)\<lparr>case1Data :=
         (case1Data (currentIssue s))\<lparr>Case1Data.unit_price := or_number n (Num 0)\<rparr>\<rparr>\<rparr>"
| "step (Case1PhotoChosen index file previewUrl) s =
     handleCase1PhotoUpload index file previewUrl s"
| "step (Case2SubItemSelected itemIndex v) s =
     set_draft (case2_assign itemIndex
        (\<lambda>it. it\<lparr>item.sub_item_id := Some v,
                  item.unit_price := Some (getSubItemPrice (subItems s) v)\<rparr>)
        (currentIssue s)) s"
| "step (Case2QuantityChanged itemIndex n) s =
     set_draft (case2_assign itemIndex
        (\<lambda>it. it\<lparr>item.quantity := Some (or_number n (Num 1))\<rparr>) (currentIssue s)) s"
| "step (Case2PriceChanged itemIndex n) s =
     set_draft (case2_assign itemIndex
        (\<lambda>it. it\<lparr>item.unit_price := Some (or_number n (Num 0))\<rparr>) (currentIssue s)) s"
| "step (Case2PhotoChosen itemIndex file previewUrl) s =
     handleCase2PhotoUpload itemIndex file previewUrl s"
| "step (NotesChanged v) s =
     s\<lparr>currentIssue := (currentIssue s)\<lparr>IssueFormData.notes' := v\<rparr>\<rparr>"
| "step (UploadSettled k outcome) s =
     upload_settled (uploads s ! k) outcome
       (s\<lparr>uploads := take k (uploads s) @ drop (Suc k) (uploads s)\<rparr>)"
| "step AddIssueClicked s = openAddIssueDialog s"
| "step (EditIssueClicked issue) s = openEditIssueDialog issue s"
| "step (DialogOpenChanged b) s = s\<lparr>isIssueDialogOpen := b\<rparr>"
| "step FormReset s = resetIssueForm s"
| "step (ItemsLoaded subs) s = s\<lparr>subItems := subs\<rparr>"
| "step (ReportLoaded r) s = s\<lparr>report := r\<rparr>"

text \<open>
  Which events the page can deliver in a state. The three \<open>case1\<close> photo inputs are
  built from \<open>[0, 1, 2]\<close> (line 1148); the controls of a \<open>case2\<close> entry are built by
  \<open>items.map\<close> (line 1176), which visits the entries that are not holes; an upload
  can settle only while it is in flight. The other events are allowed in every
  state, which is more than the page offers (it shows the controls of the selected
  case only, and only while the dialog is open).
\<close>

definition rendered_item :: "page \<Rightarrow> nat \<Rightarrow> bool" where
  "rendered_item s itemIndex \<longleftrightarrow>
     itemIndex < length (items (case2Data (currentIssue s))) \<and>
     items (case2Data (currentIssue s)) ! itemIndex \<noteq> Hole"

fun offered :: "page \<Rightarrow> event \<Rightarrow> bool" where
  "offered s (Case1PhotoChosen index file previewUrl) = (index < 3)"
| "offered s (Case2SubItemSelected itemIndex v) = rendered_item s itemIndex"
| "offered s (Case2QuantityChanged itemIndex n) = rendered_item s itemIndex"
| "offered s (Case2PriceChanged itemIndex n) = rendered_item s itemIndex"
| "offered s (Case2PhotoChosen itemIndex file previewUrl) = rendered_item s itemIndex"
| "offered s (UploadSettled k outcome) = (k < length (uploads s))"
| "offered s _ = True"

fun run :: "event list \<Rightarrow> page \<Rightarrow> page" where
  "run [] s = s"
| "run (e # es) s = run es (if offered s e then step e s else s)"

subsection \<open>Rows that come from the store\<close>



section \<open>The store\<close>

text \<open>
  The page writes to the tables \<open>report_issues\<close>, \<open>issue_items\<close> and \<open>issue_photos\<close>
  through the Supabase client and through \<open>issueService\<close> and \<open>reportService\<close>.
  A row keeps the columns that the page sends.
\<close>

record issue_data =
  report_id :: string
  main_item_id :: string
  notes' :: string
  issue_type :: string

record issue_item_row =
  issue_id :: string
  sub_item_id :: "string option"
  quantity :: "number option"
  unit_price :: number

record issue_photo_row =
  issue_id :: string
  photo_url :: "string option"

record store =
  reports :: "string list"
  report_issues :: "(string \<times> issue_data) list"
  issue_items :: "issue_item_row list"
  issue_photos :: "issue_photo_row list"

datatype store_op =
    CreateIssue issue_data "string option"
  | UpdateIssue string issue_data
  | InsertIssueItems "issue_item_row elem list"
  | InsertIssuePhotos "issue_photo_row elem list"
  | DeleteIssueItemsEq string
  | DeleteIssuePhotosEq string
  | DeleteIssueItemsIn "string list"
  | DeleteIssuePhotosIn "string list"
  | DeleteReportIssuesIn "string list"
  | DeleteReport string

text \<open>The rows of an insert payload; an empty slot of the array carries no row.\<close>

fun rows_of :: "'a elem list \<Rightarrow> 'a list" where
  "rows_of [] = []"
| "rows_of (Val r # xs) = r # rows_of xs"
| "rows_of (_ # xs) = rows_of xs"

text \<open>
  Modelled from the spec: the effect of a mutation that the store carries out.
  \<open>issueService.createIssue\<close>, \<open>issueService.updateIssue\<close> and
  \<open>reportService.deleteReport\<close> are not among the sources: each is taken as the one
  write its name says (the second component of \<open>CreateIssue\<close> is the id of the row
  that the store returns, if any). A \<open>delete().eq\<close> or \<open>delete().in\<close> removes the rows
  whose column has one of the given values, an \<open>insert\<close> adds the rows of its
  payload, and deleting an issue takes its items and photos along (the comment at
  line 663); deleting a report does not cascade (section 4.4 of the spec).
\<close>

fun apply_op :: "store_op \<Rightarrow> store \<Rightarrow> store" where
  "apply_op (CreateIssue d saved) st =
     (case saved of None \<Rightarrow> st
      | Some i \<Rightarrow> st\<lparr>store.report_issues := store.report_issues st @ [(i, d)]\<rparr>)"
| "apply_op (UpdateIssue i d) st =
     st\<lparr>store.report_issues :=
          map (\<lambda>(j, old). if j = i then (j, d) else (j, old)) (store.report_issues st)\<rparr>"
| "apply_op (InsertIssueItems payload) st =
     st\<lparr>store.issue_items := store.issue_items st @ rows_of payload\<rparr>"
| "apply_op (InsertIssuePhotos payload) st =
     st\<lparr>store.issue_photos := store.issue_photos st @ rows_of payload\<rparr>"
| "apply_op (DeleteIssueItemsEq i) st =
     st\<lparr>store.issue_items :=
          filter (\<lambda>r. issue_item_row.issue_id r \<noteq> i) (store.issue_items st)\<rparr>"
| "apply_op (DeleteIssuePhotosEq i) st =
     st\<lparr>store.issue_photos :=
          filter (\<lambda>r. issue_photo_row.issue_id r \<noteq> i) (store.issue_photos st)\<rparr>"
| "apply_op (DeleteIssueItemsIn ids) st =
     st\<lparr>store.issue_items :=
          filter (\<lambda>r. issue_item_row.issue_id r \<notin> set ids) (store.issue_items st)\<rparr>"
| "apply_op (DeleteIssuePhotosIn ids) st =
     st\<lparr>store.issue_photos :=
          filter (\<lambda>r. issue_photo_row.issue_id r \<notin> set ids) (store.issue_photos st)\<rparr>"
| "apply_op (DeleteReportIssuesIn ids) st =
     st\<lparr>store.report_issues := filter (\<lambda>(j, d). j \<notin> set ids) (store.report_issues st),
        store.issue_items :=
          filter (\<lambda>r. issue_item_row.issue_id r \<notin> set ids) (store.issue_items st),
        store.issue_photos :=
          filter (\<lambda>r. issue_photo_row.issue_id r \<notin> set ids) (store.issue_photos st)\<rparr>"
| "apply_op (DeleteReport i) st =
     st\<lparr>reports := filter (\<lambda>j. j \<noteq> i) (reports st)\<rparr>"

text \<open>
  How an awaited call ends: the store carried the mutation out; it answered with an
  error object, which the page does not look at, so the handler goes on; or the
  call threw, which takes the handler to its \<open>catch\<close> block.
\<close>

datatype outcome = Done | Failed | Thrown

text \<open>
  A handler issues its calls one after the other. Each entry of the script is the
  call to make, or the error thrown while its arguments are computed. \<open>answer k\<close>
  is how the \<open>k\<close>-th call of the run ends. The result lists the calls issued, in
  order, the store afterwards, and whether an exception ended the run.
\<close>

fun exec ::
  "(nat \<Rightarrow> outcome) \<Rightarrow> nat \<Rightarrow> (js_error + store_op) list \<Rightarrow> store
     \<Rightarrow> store_op list \<times> store \<times> bool" where
  "exec answer k [] st = ([], st, False)"
| "exec answer k (Inl e # calls) st = ([], st, True)"
| "exec answer k (Inr c # calls) st =
     (case answer k of
        Thrown \<Rightarrow> ([c], st, True)
      | Failed \<Rightarrow>
          (case exec answer (Suc k) calls st of
             (issued, st', threw) \<Rightarrow> (c # issued, st', threw))
      | Done \<Rightarrow>
          (case exec answer (Suc k) calls (apply_op c st) of
             (issued, st', threw) \<Rightarrow> (c # issued, st', threw)))"

section \<open>\<open>handleSaveIssue\<close> and \<open>handleDeleteReport\<close>\<close>

definition issueData :: "Report \<Rightarrow> IssueFormData \<Rightarrow> issue_data" where
  "issueData r cur =
     \<lparr>report_id = Report.id' r,
      issue_data.main_item_id = IssueFormData.main_item_id cur,
      issue_data.notes' = IssueFormData.notes' cur,
      issue_data.issue_type = (if caseType cur = case1 then ''single'' else ''multiple'')\<rparr>"

text \<open>
  \<open>items.map(callback)\<close> with a callback that reads properties of the entry: holes
  stay holes, an \<open>undefined\<close> entry throws. \<open>photos.map(callback)\<close> only passes the
  entry on, so \<open>undefined\<close> gives a row without a \<open>photo_url\<close>.
\<close>

fun map_items :: "(item \<Rightarrow> 'b) \<Rightarrow> item elem list \<Rightarrow> js_error + 'b elem list" where
  "map_items f [] = Inr []"
| "map_items f (Hole # xs) =
     (case map_items f xs of Inl e \<Rightarrow> Inl e | Inr ys \<Rightarrow> Inr (Hole # ys))"
| "map_items f (Undefined # xs) = Inl TypeError"
| "map_items f (Val it # xs) =
     (case map_items f xs of Inl e \<Rightarrow> Inl e | Inr ys \<Rightarrow> Inr (Val (f it) # ys))"

fun photo_row_of :: "string \<Rightarrow> string elem \<Rightarrow> issue_photo_row elem" where
  "photo_row_of i Hole = Hole"
| "photo_row_of i Undefined =
     Val \<lparr>issue_photo_row.issue_id = i, issue_photo_row.photo_url = None\<rparr>"
| "photo_row_of i (Val photoUrl) =
     Val \<lparr>issue_photo_row.issue_id = i, issue_photo_row.photo_url = Some photoUrl\<rparr>"

definition price_of_sub_item :: "SubItem list \<Rightarrow> string option \<Rightarrow> number" where
  "price_of_sub_item subs x = (case x of None \<Rightarrow> Num 0 | Some v \<Rightarrow> getSubItemPrice subs v)"

definition item_row_of :: "SubItem list \<Rightarrow> string \<Rightarrow> item \<Rightarrow> issue_item_row" where
  "item_row_of subs i it =
     \<lparr>issue_item_row.issue_id = i,
      issue_item_row.sub_item_id = item.sub_item_id it,
      issue_item_row.quantity = item.quantity it,
      issue_item_row.unit_price =
        (case item.unit_price it of
           None \<Rightarrow> price_of_sub_item subs (item.sub_item_id it)
         | Some p \<Rightarrow> or_number p (price_of_sub_item subs (item.sub_item_id it)))\<rparr>"

definition call_with :: "('a \<Rightarrow> store_op) \<Rightarrow> js_error + 'a \<Rightarrow> js_error + store_op" where
  "call_with c r = (case r of Inl e \<Rightarrow> Inl e | Inr payload \<Rightarrow> Inr (c payload))"

text \<open>
  The two inserts that follow the issue row, for the issue id \<open>i\<close> (lines 545 to 579
  and 594 to 628, which differ in the id only).
\<close>

definition insert_calls ::
  "SubItem list \<Rightarrow> string \<Rightarrow> IssueFormData \<Rightarrow> (js_error + store_op) list" where
  "insert_calls subs i cur =
     (if caseType cur = case1 then
        [Inr (InsertIssueItems
           [Val \<lparr>issue_item_row.issue_id = i,
                 issue_item_row.sub_item_id = Some (Case1Data.sub_item_id (case1Data cur)),
                 issue_item_row.quantity = Some (Case1Data.quantity (case1Data cur)),
                 issue_item_row.unit_price =
                   or_number (Case1Data.unit_price (case1Data cur))
                     (getSubItemPrice subs (Case1Data.sub_item_id (case1Data cur)))\<rparr>]),
         Inr (InsertIssuePhotos (map (photo_row_of i) (photos (case1Data cur))))]
      else
        [call_with InsertIssueItems (map_items (item_row_of subs i) (items (case2Data cur))),
         call_with InsertIssuePhotos
           (map_items (\<lambda>it. \<lparr>issue_photo_row.issue_id = i,
                               issue_photo_row.photo_url = item.photo it\<rparr>)
              (items (case2Data cur)))])"

definition save_calls ::
  "string option \<Rightarrow> Report \<Rightarrow> page \<Rightarrow> (js_error + store_op) list" where
  "save_calls savedIssue r s =
     (if issueDialogMode s = create then
        Inr (CreateIssue (issueData r (currentIssue s)) savedIssue) #
        (case savedIssue of
           None \<Rightarrow> []
         | Some i \<Rightarrow> insert_calls (subItems s) i (currentIssue s))
      else
        (case editingIssueId s of
           None \<Rightarrow> []
         | Some i \<Rightarrow>
             if i = [] then []
             else
               [Inr (UpdateIssue i (issueData r (currentIssue s))),
                Inr (DeleteIssueItemsEq i),
                Inr (DeleteIssuePhotosEq i)] @
               insert_calls (subItems s) i (currentIssue s)))"

text \<open>
  \<open>handleSaveIssue\<close>. \<open>routeId\<close> is the route parameter \<open>id\<close> when it is a string, \<open>savedIssue\<close>
  the id of the row that \<open>createIssue\<close> returns, \<open>loaded\<close> what \<open>loadReport\<close> puts
  into the page afterwards. The result is \<open>Inl\<close> when \<open>validateIssue\<close> throws (it is
  called outside the \<open>try\<close>); otherwise the calls issued, the store and the page
  afterwards.
\<close>

definition handleSaveIssue ::
  "(nat \<Rightarrow> outcome) \<Rightarrow> string option \<Rightarrow> string option \<Rightarrow> Report option \<Rightarrow> page \<Rightarrow> store
     \<Rightarrow> js_error + (store_op list \<times> store \<times> page)" where
  "handleSaveIssue answer routeId savedIssue loaded s st =
     (if isSavingIssue s then Inr ([], st, s)
      else
        (case (report s, routeId) of
           (None, _) \<Rightarrow> Inr ([], st, s)
         | (_, None) \<Rightarrow> Inr ([], st, s)
         | (Some r, Some i) \<Rightarrow>
             if i = [] then Inr ([], st, s)
             else if pendingUploads s > 0 then Inr ([], st, s)
             else
               (case validateIssue (currentIssue s) of
                  Inl e \<Rightarrow> Inl e
                | Inr False \<Rightarrow> Inr ([], st, s)
                | Inr True \<Rightarrow>
                    (case exec answer 0 (save_calls savedIssue r s) st of
                       (issued, st', threw) \<Rightarrow>
                         if threw then Inr (issued, st', s\<lparr>isSavingIssue := False\<rparr>)
                         else Inr (issued, st',
                                (resetIssueForm (s\<lparr>isSavingIssue := False, report := loaded\<rparr>))
                                  \<lparr>isIssueDialogOpen := False\<rparr>)))))"

text \<open>
  \<open>handleDeleteReport\<close>. \<open>confirmDelete\<close> is the answer of \<open>window.confirm\<close>. The
  result is the calls issued, the store afterwards, and whether the page went on to
  the dashboard.
\<close>

definition issueIds_of :: "Report option \<Rightarrow> string list" where
  "issueIds_of r =
     (case r of
        None \<Rightarrow> []
      | Some rep \<Rightarrow> (case Report.report_issues rep of None \<Rightarrow> [] | Some xs \<Rightarrow> map Issue.id' xs))"

definition delete_calls :: "string list \<Rightarrow> string \<Rightarrow> store_op list" where
  "delete_calls issueIds i =
     (if length issueIds > 0
      then [DeleteIssueItemsIn issueIds, DeleteIssuePhotosIn issueIds,
            DeleteReportIssuesIn issueIds]
      else []) @ [DeleteReport i]"

definition handleDeleteReport ::
  "(nat \<Rightarrow> outcome) \<Rightarrow> string option \<Rightarrow> bool \<Rightarrow> page \<Rightarrow> store
     \<Rightarrow> store_op list \<times> store \<times> bool" where
  "handleDeleteReport answer routeId confirmDelete s st =
     (case routeId of
        None \<Rightarrow> ([], st, False)
      | Some i \<Rightarrow>
          if i = [] then ([], st, False)
          else if \<not> confirmDelete then ([], st, False)
          else
            (case exec answer 0 (map Inr (delete_calls (issueIds_of (report s)) i)) st of
               (issued, st', threw) \<Rightarrow> (issued, st', \<not> threw)))"

section \<open>The map-photo endpoint\<close>

text \<open>
  A value of the JSON request body as the handler sees it. \<open>JObject\<close> stands for any
  object or array: the handler only tests such a value for truthiness and type.
\<close>

datatype jsval = JUndefined | JNull | JBool bool | JNumber number | JString string | JObject

fun truthy :: "jsval \<Rightarrow> bool" where
  "truthy JUndefined = False"
| "truthy JNull = False"
| "truthy (JBool b) = b"
| "truthy (JNumber n) = truthy_number n"
| "truthy (JString s) = (s \<noteq> [])"
| "truthy JObject = True"

text \<open>
  The request: its method and the five properties that the handler takes from
  \<open>req.body || {}\<close> (a property that is absent is \<open>JUndefined\<close>).
\<close>

record request =
  method' :: "string option"
  lat :: jsval
  lng :: jsval
  reportId :: jsval
  targetId :: jsval
  targetType :: jsval

text \<open>What is thrown inside the \<open>try\<close> block: an \<open>Error\<close> with its message, or anything else.\<close>

datatype thrown = ThrownError string | ThrownOther

record provider_response =
  ok :: bool
  status :: nat
  statusText :: string
  text' :: "thrown + string"
  arrayBuffer :: "thrown + string"

text \<open>
  The surroundings of the handler: the key of the local configuration file and the
  two environment variables (empty when not set), \<open>parseFloat\<close>, the text that a
  template string gives for a value, \<open>fetch\<close> on the static map of a position with a
  key, the upload to the bucket (the message of \<open>uploadError\<close>, if any) and
  \<open>getPublicUrl\<close>.
\<close>

record server =
  LOCAL_GMAPS_KEY :: string
  GMAPS_KEY :: string
  NEXT_PUBLIC_GMAPS_KEY :: string
  parseFloat :: "string \<Rightarrow> number"
  template_text :: "jsval \<Rightarrow> string"
  fetch_map :: "jsval \<Rightarrow> jsval \<Rightarrow> string \<Rightarrow> thrown + provider_response"
  storage_upload :: "string \<Rightarrow> string \<Rightarrow> thrown + string option"
  getPublicUrl :: "string \<Rightarrow> thrown + string"

definition or_string :: "string \<Rightarrow> string \<Rightarrow> string" where
  "or_string a b = (if a \<noteq> [] then a else b)"

definition gmapsKey :: "server \<Rightarrow> string" where
  "gmapsKey env =
     or_string (LOCAL_GMAPS_KEY env)
       (or_string (GMAPS_KEY env) (or_string (NEXT_PUBLIC_GMAPS_KEY env) []))"

datatype message =
    MethodNotAllowed
  | KeyMissing
  | LatLngTargetRequired
  | FetchFailed nat string string
  | Message string
  | UnexpectedServerError

datatype response_body = ErrorResponse message | SuccessResponse string string

record response =
  status_code :: nat
  allow :: "string option"
  body :: response_body

definition respond :: "nat \<Rightarrow> response_body \<Rightarrow> response" where
  "respond code b = \<lparr>status_code = code, allow = None, body = b\<rparr>"

definition caught :: "thrown \<Rightarrow> response" where
  "caught e =
     respond 500 (ErrorResponse (case e of ThrownError m \<Rightarrow> Message m
                                         | ThrownOther \<Rightarrow> UnexpectedServerError))"

definition to_number :: "server \<Rightarrow> jsval \<Rightarrow> jsval" where
  "to_number env v = (case v of JString t \<Rightarrow> JNumber (parseFloat env t) | _ \<Rightarrow> v)"

fun is_number :: "jsval \<Rightarrow> bool" where
  "is_number (JNumber n) = True"
| "is_number _ = False"

fun is_NaN :: "jsval \<Rightarrow> bool" where
  "is_NaN (JNumber NaN) = True"
| "is_NaN _ = False"

definition safe_char :: "char \<Rightarrow> bool" where
  "safe_char c \<longleftrightarrow>
     c \<in> set ''abcdefghijklmnopqrstuvwxyzABCDEFGHIJKLMNOPQRSTUVWXYZ0123456789_-''"

text \<open>The \<open>try\<close> block of the handler (lines 47 to 82) with its \<open>catch\<close>.\<close>

definition fetch_and_store ::
  "server \<Rightarrow> jsval \<Rightarrow> jsval \<Rightarrow> string \<Rightarrow> jsval \<Rightarrow> string \<Rightarrow> response" where
  "fetch_and_store env latNum lngNum apiKey resolvedId resolvedType =
     (case fetch_map env latNum lngNum apiKey of
        Inl e \<Rightarrow> caught e
      | Inr mapResponse \<Rightarrow>
          if \<not> ok mapResponse then
            (case text' mapResponse of
               Inl e \<Rightarrow> caught e
             | Inr t \<Rightarrow>
                 respond 502 (ErrorResponse
                   (FetchFailed (status mapResponse) (statusText mapResponse) t)))
          else
            (case arrayBuffer mapResponse of
               Inl e \<Rightarrow> caught e
             | Inr buffer \<Rightarrow>
                 let safeType = or_string (filter safe_char resolvedType) ''map'';
                     path = ''map-photos/'' @ safeType @ ''-'' @
                            template_text env resolvedId @ ''.jpg''
                 in
                 (case storage_upload env path buffer of
                    Inl e \<Rightarrow> caught e
                  | Inr (Some uploadError) \<Rightarrow>
                      respond 500 (ErrorResponse (Message uploadError))
                  | Inr None \<Rightarrow>
                      (case getPublicUrl env path of
                         Inl e \<Rightarrow> caught e
                       | Inr publicUrl \<Rightarrow>
                           respond 200 (SuccessResponse publicUrl path)))))"

definition handler :: "server \<Rightarrow> request \<Rightarrow> response" where
  "handler env req =
     (if method' req \<noteq> Some ''POST''
        then (respond 405 (ErrorResponse MethodNotAllowed))\<lparr>allow := Some ''POST''\<rparr>
      else
        let apiKey = or_string (gmapsKey env) (GMAPS_KEY env) in
        if apiKey = [] then respond 500 (ErrorResponse KeyMissing)
        else
          let latNum = to_number env (lat req);
              lngNum = to_number env (lng req);
              resolvedId = (if truthy (targetId req) then targetId req else reportId req);
              resolvedType =
                (case targetType req of
                   JString t \<Rightarrow>
                     if length t > 0 then t
                     else if truthy (reportId req) then ''report'' else ''mosque''
                 | _ \<Rightarrow> if truthy (reportId req) then ''report'' else ''mosque'')
          in
          if \<not> is_number latNum \<or> \<not> is_number lngNum \<or> \<not> truthy resolvedId \<or>
             is_NaN latNum \<or> is_NaN lngNum
            then respond 400 (ErrorResponse LatLngTargetRequired)
          else fetch_and_store env latNum lngNum apiKey resolvedId resolvedType)"

section \<open>Example inputs\<close>

text \<open>The valid \<open>case1\<close> draft of the specification, and the same draft with a quantity that is NaN.\<close>

definition valid_case1_draft :: IssueFormData where
  "valid_case1_draft =
     emptyIssueForm\<lparr>IssueFormData.main_item_id := ''m1'',
       case1Data := \<lparr>Case1Data.sub_item_id = ''s1'', Case1Data.quantity = Num 2,
                     Case1Data.unit_price = Num 50,
                     photos = [Val ''u1'', Val ''u2'', Val ''u3'']\<rparr>\<rparr>"

definition NaN_case1_draft :: IssueFormData where
  "NaN_case1_draft =
     valid_case1_draft\<lparr>case1Data :=
       (case1Data valid_case1_draft)\<lparr>Case1Data.quantity := NaN\<rparr>\<rparr>"




text \<open>
  A file of exactly the default target size, a larger one, and a browser whose
  encoder gives two million bytes at every quality.
\<close>

definition small_file :: File where
  "small_file = \<lparr>size' = 921600, name' = ''a.png'', type' = ''image/png''\<rparr>"

definition big_file :: File where
  "big_file = \<lparr>size' = 5000000, name' = ''b.png'', type' = ''image/png''\<rparr>"

definition oversize_browser :: browser where
  "oversize_browser =
     \<lparr>has_window_Image = True, load_image = (\<lambda>f. Some (4000, 3000)), getContext = True,
      canvas_toBlob = (\<lambda>w h q. Some 2000000), Date_now = ''1700000000000''\<rparr>"

text \<open>
  A draft whose first \<open>case1\<close> photo slot and first \<open>case2\<close> entry both show the preview
  \<open>blob:a\<close>, and the choice of one file for the first \<open>case1\<close> slot.
\<close>

definition previewed_draft :: IssueFormData where
  "previewed_draft = case2_preview 0 ''blob:a'' (case1_preview 0 ''blob:a'' emptyIssueForm)"

definition one_upload :: "event list" where
  "one_upload = [Case1PhotoChosen 0 (Some small_file) ''blob:a'']"

text \<open>
  A persisted \<open>single\<close> issue with one item and three photos, the report that holds
  it, and the events that load the report and open the issue for editing.
\<close>

definition saved_issue :: Issue where
  "saved_issue =
     \<lparr>Issue.id' = ''i1'', Issue.main_item_id = ''m1'', Issue.notes' = None,
      Issue.issue_type = ''single'',
      issue_items = [\<lparr>IssueItem.sub_item_id = ''s1'', IssueItem.quantity = Num 2,
                      IssueItem.unit_price = Some (Num 50), sub_items = None\<rparr>],
      issue_photos = [\<lparr>IssuePhoto.photo_url = ''u1''\<rparr>, \<lparr>IssuePhoto.photo_url = ''u2''\<rparr>, \<lparr>IssuePhoto.photo_url = ''u3''\<rparr>]\<rparr>"

definition loaded_report :: Report where
  "loaded_report = \<lparr>Report.id' = ''r1'', Report.report_issues = Some [saved_issue]\<rparr>"

definition open_for_edit :: "event list" where
  "open_for_edit = [ReportLoaded (Some loaded_report), EditIssueClicked saved_issue]"

text \<open>
  An invariant of the page, used for the proofs about saving: every event keeps
  three \<open>case2\<close> entries and at most three \<open>case1\<close> photo slots in the draft, and
  none starts a save.
\<close>

definition page_shape :: "page \<Rightarrow> bool" where
  "page_shape s \<longleftrightarrow>
     length (items (case2Data (currentIssue s))) = 3 \<and>
     length (photos (case1Data (currentIssue s))) \<le> 3 \<and>
     \<not> isSavingIssue s"

text \<open>
  A store that holds, for the issue \<open>i1\<close>, two item rows and four photo rows of an
  earlier save, and one item row of another issue.
\<close>

definition earlier_store :: store where
  "earlier_store =
     \<lparr>reports = [''r1''],
      store.report_issues = [],
      store.issue_items =
        [\<lparr>issue_item_row.issue_id = ''i1'', issue_item_row.sub_item_id = Some ''s0'',
          issue_item_row.quantity = Some (Num 1), issue_item_row.unit_price = Num 10\<rparr>,
         \<lparr>issue_item_row.issue_id = ''i2'', issue_item_row.sub_item_id = Some ''s0'',
          issue_item_row.quantity = Some (Num 1), issue_item_row.unit_price = Num 10\<rparr>,
         \<lparr>issue_item_row.issue_id = ''i1'', issue_item_row.sub_item_id = Some ''s9'',
          issue_item_row.quantity = Some (Num 3), issue_item_row.unit_price = Num 10\<rparr>],
      store.issue_photos =
        [\<lparr>issue_photo_row.issue_id = ''i1'', issue_photo_row.photo_url = Some ''o1''\<rparr>,
         \<lparr>issue_photo_row.issue_id = ''i1'', issue_photo_row.photo_url = Some ''o2''\<rparr>,
         \<lparr>issue_photo_row.issue_id = ''i1'', issue_photo_row.photo_url = Some ''o3''\<rparr>,
         \<lparr>issue_photo_row.issue_id = ''i1'', issue_photo_row.photo_url = Some ''o4''\<rparr>]\<rparr>"

text \<open>A report with two issues, the page showing it, and a store that holds the report.\<close>

definition two_issue_report :: Report where
  "two_issue_report =
     \<lparr>Report.id' = ''r1'',
      Report.report_issues = Some [saved_issue, saved_issue\<lparr>Issue.id' := ''i2''\<rparr>]\<rparr>"

definition report_page :: page where
  "report_page = initial_page\<lparr>report := Some two_issue_report\<rparr>"

definition stored :: store where
  "stored =
     \<lparr>reports = [''r1''],
      store.report_issues = [],
      store.issue_items = [],
      store.issue_photos = []\<rparr>"

text \<open>
  A server with a key whose provider and bucket answer well, and a request for the
  map of a report.
\<close>

definition map_server :: server where
  "map_server =
     \<lparr>LOCAL_GMAPS_KEY = [], GMAPS_KEY = ''key'', NEXT_PUBLIC_GMAPS_KEY = [],
      parseFloat = (\<lambda>t. NaN),
      template_text = (\<lambda>v. case v of JString t \<Rightarrow> t | _ \<Rightarrow> ''v''),
      fetch_map = (\<lambda>latNum lngNum apiKey.
        Inr \<lparr>ok = True, status = 200, statusText = ''OK'', text' = Inr [],
             arrayBuffer = Inr ''jpeg''\<rparr>),
      storage_upload = (\<lambda>path buffer. Inr None),
      getPublicUrl = (\<lambda>path. Inr (''https://cdn/'' @ path))\<rparr>"

definition map_request :: request where
  "map_request =
     \<lparr>method' = Some ''POST'', lat = JNumber (Num 24.7), lng = JNumber (Num 46.6),
      reportId = JString ''r1'', targetId = JUndefined, targetType = JUndefined\<rparr>"

section \<open>Validation of a draft\<close>





text \<open>
  A quantity that is NaN would pass line 424, since \<open>NaN <= 0\<close> is false. No event
  of the page stores one (see \<open>numbers_run\<close> below), which is why the property of
  \<open>case1\<close> drafts is stated for the drafts that the page reaches.
\<close>

lemma validateIssue_NaN_quantity:
  "caseType NaN_case1_draft = case1 \<and>
   validateIssue NaN_case1_draft = Inr True \<and>
   \<not> gt_zero (Case1Data.quantity (case1Data NaN_case1_draft))"
  by (simp add: NaN_case1_draft_def valid_case1_draft_def emptyIssueForm_def
      validateIssue_def)








section \<open>Image compression\<close>

text \<open>
  C3: for every input file, if \<open>file.size <= targetSizeKb * 1024\<close> then
  \<open>compressImage\<close> returns the input file itself, without encoding anything; with
  the default \<open>targetSizeKb = 900\<close> that is every file of at most 921600 bytes.
\<close>

theorem compressImage_small_file:
  assumes "real (size' file) \<le> targetSizeKb * 1024"
  shows "compressImage env file maxDimension targetSizeKb = ([], Inr file)"
  using assms by (simp add: compressImage_def)

theorem compressImage_small_file_witness:
  "real (size' small_file) \<le> 900 * 1024 \<and>
   compressImage_default oversize_browser small_file = ([], Inr small_file)"
  using compressImage_small_file [of small_file 900 oversize_browser 1400]
  by (simp add: small_file_def compressImage_default_def)

text \<open>One turn of the loop, and the loop unrolled from the qualities 0.64 and 0.72.\<close>

lemma quality_loop_stop:
  assumes "\<not> (real blob > t \<and> q > 0.58)"
  shows "quality_loop toBlob t q blob calls = (calls, Inr blob)"
  by (subst quality_loop.simps) (simp only: assms if_False)

lemma quality_loop_again:
  assumes "real blob > t" and "q > 0.58" and "toBlob (q - 0.08) = Some b"
  shows "quality_loop toBlob t q blob calls =
           quality_loop toBlob t (q - 0.08) b (calls @ [q - 0.08])"
  by (subst quality_loop.simps) (simp only: assms simp_thms if_True option.case)

lemma quality_loop_rejected:
  assumes "real blob > t" and "q > 0.58" and "toBlob (q - 0.08) = None"
  shows "quality_loop toBlob t q blob calls =
           (calls @ [q - 0.08], Inl (Error ''Image compression failed''))"
  by (subst quality_loop.simps) (simp only: assms simp_thms if_True option.case)

lemma quality_loop_at_064:
  "quality_loop toBlob t 0.64 b [0.72, 0.64] =
     (if real b > t then
        (case toBlob 0.56 of
           None \<Rightarrow> ([0.72, 0.64, 0.56], Inl (Error ''Image compression failed''))
         | Some b' \<Rightarrow> ([0.72, 0.64, 0.56], Inr b'))
      else ([0.72, 0.64], Inr b))"
proof (cases "real b > t")
  case False
  then show ?thesis by (simp add: quality_loop_stop)
next
  case True
  have above: "(0.64::real) > 0.58" and next_q: "(0.64::real) - 0.08 = 0.56"
    and floor: "\<not> (real b' > t \<and> (0.56::real) > 0.58)" for b'
    by simp_all
  show ?thesis
  proof (cases "toBlob 0.56")
    case None
    then have "toBlob (0.64 - 0.08) = None" by (simp only: next_q)
    from quality_loop_rejected [where toBlob = toBlob and q = "0.64", OF True above this]
      None True
    show ?thesis
      by (simp only: next_q) simp
  next
    case (Some b')
    then have "toBlob (0.64 - 0.08) = Some b'" by (simp only: next_q)
    from quality_loop_again [where toBlob = toBlob and q = "0.64", OF True above this]
      Some True
    show ?thesis
      by (simp only: next_q quality_loop_stop [OF floor]) simp
  qed
qed

lemma quality_loop_at_072:
  "quality_loop toBlob t 0.72 blob [0.72] =
     (if real blob > t then
        (case toBlob 0.64 of
           None \<Rightarrow> ([0.72, 0.64], Inl (Error ''Image compression failed''))
         | Some b \<Rightarrow> quality_loop toBlob t 0.64 b [0.72, 0.64])
      else ([0.72], Inr blob))"
proof (cases "real blob > t")
  case False
  then show ?thesis by (simp add: quality_loop_stop)
next
  case True
  have above: "(0.72::real) > 0.58" and next_q: "(0.72::real) - 0.08 = 0.64"
    by simp_all
  show ?thesis
  proof (cases "toBlob 0.64")
    case None
    then have "toBlob (0.72 - 0.08) = None" by (simp only: next_q)
    from quality_loop_rejected [where toBlob = toBlob and q = "0.72", OF True above this]
      None True
    show ?thesis
      by (simp only: next_q) simp
  next
    case (Some b)
    then have "toBlob (0.72 - 0.08) = Some b" by (simp only: next_q)
    from quality_loop_again [where toBlob = toBlob and q = "0.72", OF True above this]
      Some True
    show ?thesis
      by (simp only: next_q) simp
  qed
qed

lemma quality_loop_calls:
  "fst (quality_loop toBlob t 0.72 blob [0.72]) =
     (if real blob > t then
        (case toBlob 0.64 of
           None \<Rightarrow> [0.72, 0.64]
         | Some b \<Rightarrow> if real b > t then [0.72, 0.64, 0.56] else [0.72, 0.64])
      else [0.72])"
  by (simp only: quality_loop_at_072 quality_loop_at_064) (simp split: option.split)

text \<open>
  C4, as it holds: with the default constants the loop runs at most 2 iterations.
  The qualities encoded are 0.72 alone, or 0.72 and 0.64, or 0.72, 0.64 and 0.56:
  the first re-encode is at 0.64, and a second one at 0.56 runs exactly when the
  blob at 0.64 is still larger than the target, because the test \<open>quality > 0.58\<close>
  is made on 0.64 before the decrement. After it the loop stops, since
  \<open>0.56 > 0.58\<close> is false. The same bound holds for \<open>compressImage\<close> as a whole.
\<close>

theorem quality_loop_two_iterations:
  "fst (quality_loop toBlob t 0.72 blob [0.72]) \<in> {[0.72], [0.72, 0.64], [0.72, 0.64, 0.56]} \<and>
   (0.56 \<in> set (fst (quality_loop toBlob t 0.72 blob [0.72])) \<longleftrightarrow>
      real blob > t \<and> (\<exists>b. toBlob 0.64 = Some b \<and> real b > t)) \<and>
   fst (compressImage_default env file) \<in>
     {[], [0.72], [0.72, 0.64], [0.72, 0.64, 0.56]}"
proof -
  have calls: "fst (quality_loop toBlob t 0.72 b [0.72]) \<in>
                 {[0.72], [0.72, 0.64], [0.72, 0.64, 0.56]}" for toBlob t b
    by (simp only: quality_loop_calls) (simp split: option.split)
  have second: "0.56 \<in> set (fst (quality_loop toBlob t 0.72 blob [0.72])) \<longleftrightarrow>
      real blob > t \<and> (\<exists>b. toBlob 0.64 = Some b \<and> real b > t)"
    by (simp only: quality_loop_calls) (simp split: option.split)
  have keep: "fst (case p of (cs, Inl e) \<Rightarrow> (cs, Inl e) | (cs, Inr b) \<Rightarrow> (cs, Inr (f b))) = fst p"
    for p :: "real list \<times> (js_error + nat)" and f :: "nat \<Rightarrow> File"
    by (simp split: prod.split sum.split)
  have whole: "fst (compressImage_default env file) \<in>
     {[], [0.72], [0.72, 0.64], [0.72, 0.64, 0.56]}"
    unfolding compressImage_default_def compressImage_def Let_def
    using calls by (simp add: keep split: option.split prod.split)
  from calls second whole show ?thesis by blast
qed

text \<open>
  C4 as stated says that an encode at 0.56 never runs. It does, for an image whose
  blob is larger than the target at 0.72 and at 0.64.
\<close>

theorem compressImage_encodes_at_056:
  "fst (compressImage_default oversize_browser big_file) = [0.72, 0.64, 0.56]"
  unfolding compressImage_default_def compressImage_def oversize_browser_def big_file_def
  by (simp only: quality_loop_at_072 quality_loop_at_064 browser.simps File.simps)
     (simp add: scale_dimensions_def)

section \<open>The staleness guard of the photo uploads\<close>

lemma length_js_spread: "length (js_spread xs) = length xs"
  by (simp add: js_spread_def)

lemma js_get_spread: "js_get (js_spread xs) i = js_get xs i"
  by (auto simp: js_get_def js_spread_def split: elem.split)

lemma js_get_set_same: "js_get (js_set xs i v) i = Some v"
  by (simp add: js_get_def js_set_def nth_append)

lemma js_get_set_other: "j \<noteq> i \<Longrightarrow> js_get (js_set xs i v) j = js_get xs j"
  by (auto simp: js_get_def js_set_def nth_append)

lemma js_get_in_range: "js_get xs i = Some v \<Longrightarrow> i < length xs"
  by (simp add: js_get_def split: if_splits)

lemma length_js_set_in_range: "i < length xs \<Longrightarrow> length (js_set xs i v) = length xs"
  by (simp add: js_set_def)

lemma case1_write_slot:
  "js_get (photos (case1Data (case1_write index v prev))) j =
     (if j = index then Some v else js_get (photos (case1Data prev)) j)"
  by (simp add: case1_write_def js_get_set_same js_get_set_other js_get_spread)

lemma case2_write_slot:
  "item_photo (items (case2Data (case2_write itemIndex v prev))) j =
     (if j = itemIndex then Some v else item_photo (items (case2Data prev)) j)"
  by (simp add: case2_write_def item_photo_def Let_def js_get_set_same js_get_set_other
      js_get_spread)

text \<open>
  C5: for a \<open>case1\<close> photo index and for a \<open>case2\<close> item index alike, when the
  upload resolves the slot takes the remote URL if it still holds the preview URL
  made when the upload started, and when the upload fails the slot is set to the
  empty string under the same test; when the slot holds anything else the draft
  is returned as it is. A write changes no other slot.
\<close>

theorem stale_upload_guard:
  "(js_get (photos (case1Data prev)) index = Some previewUrl \<longrightarrow>
      js_get (photos (case1Data (case1_resolved index previewUrl photoUrl prev))) index
        = Some photoUrl \<and>
      js_get (photos (case1Data (case1_rejected index previewUrl prev))) index = Some []) \<and>
   (js_get (photos (case1Data prev)) index \<noteq> Some previewUrl \<longrightarrow>
      case1_resolved index previewUrl photoUrl prev = prev \<and>
      case1_rejected index previewUrl prev = prev) \<and>
   (item_photo (items (case2Data prev)) index = Some previewUrl \<longrightarrow>
      item_photo (items (case2Data (case2_resolved index previewUrl photoUrl prev))) index
        = Some photoUrl \<and>
      item_photo (items (case2Data (case2_rejected index previewUrl prev))) index = Some []) \<and>
   (item_photo (items (case2Data prev)) index \<noteq> Some previewUrl \<longrightarrow>
      case2_resolved index previewUrl photoUrl prev = prev \<and>
      case2_rejected index previewUrl prev = prev) \<and>
   (j \<noteq> index \<longrightarrow>
      js_get (photos (case1Data (case1_resolved index previewUrl photoUrl prev))) j
        = js_get (photos (case1Data prev)) j \<and>
      js_get (photos (case1Data (case1_rejected index previewUrl prev))) j
        = js_get (photos (case1Data prev)) j \<and>
      item_photo (items (case2Data (case2_resolved index previewUrl photoUrl prev))) j
        = item_photo (items (case2Data prev)) j \<and>
      item_photo (items (case2Data (case2_rejected index previewUrl prev))) j
        = item_photo (items (case2Data prev)) j)"
  by (simp add: case1_resolved_def case1_rejected_def case2_resolved_def case2_rejected_def
      case1_write_slot case2_write_slot)

text \<open>
  Two uploads to the same slot, the second started before the first settles: the
  slot ends with the URL of the second, in whichever order the two resolve.
\<close>

lemma last_upload_wins:
  assumes "p1 \<noteq> p2" and "p1 \<noteq> u2"
  shows "js_get (photos (case1Data
           (case1_resolved i p2 u2 (case1_resolved i p1 u1
              (case1_preview i p2 (case1_preview i p1 d)))))) i = Some u2"
    and "js_get (photos (case1Data
           (case1_resolved i p1 u1 (case1_resolved i p2 u2
              (case1_preview i p2 (case1_preview i p1 d)))))) i = Some u2"
  using assms
  by (simp_all add: case1_resolved_def case1_preview_def case1_write_slot)


lemma case2_write_case1Data: "case1Data (case2_write itemIndex v prev) = case1Data prev"
  by (simp add: case2_write_def Let_def)

lemma case1_write_case2Data: "case2Data (case1_write index v prev) = case2Data prev"
  by (simp add: case1_write_def)

lemma previewed_draft_slots:
  "js_get (photos (case1Data previewed_draft)) 0 = Some ''blob:a''"
  "item_photo (items (case2Data previewed_draft)) 0 = Some ''blob:a''"
  by (simp_all add: previewed_draft_def case1_preview_def
      case2_preview_def case1_write_slot case2_write_slot case2_write_case1Data)

theorem stale_upload_guard_witness:
  "js_get (photos (case1Data previewed_draft)) 0 = Some ''blob:a'' \<and>
   item_photo (items (case2Data previewed_draft)) 0 = Some ''blob:a'' \<and>
   js_get (photos (case1Data previewed_draft)) 0 \<noteq> Some ''blob:z'' \<and>
   item_photo (items (case2Data previewed_draft)) 0 \<noteq> Some ''blob:z'' \<and>
   (1::nat) \<noteq> 0 \<and>
   js_get (photos (case1Data (case1_resolved 0 ''blob:a'' ''https://cdn/p.jpg'' previewed_draft))) 0
     = Some ''https://cdn/p.jpg'' \<and>
   item_photo (items (case2Data (case2_rejected 0 ''blob:a'' previewed_draft))) 0 = Some [] \<and>
   case1_resolved 0 ''blob:z'' ''https://cdn/p.jpg'' previewed_draft = previewed_draft \<and>
   case2_rejected 0 ''blob:z'' previewed_draft = previewed_draft"
  using stale_upload_guard [of previewed_draft 0 "''blob:a''" "''https://cdn/p.jpg''" 1]
    stale_upload_guard [of previewed_draft 0 "''blob:z''" "''https://cdn/p.jpg''" 1]
  by (simp add: previewed_draft_slots)

section \<open>The pending-uploads counter\<close>

lemmas page_defs =
  handleCase1PhotoUpload_def handleCase2PhotoUpload_def upload_settled_def set_draft_def
  openAddIssueDialog_def resetIssueForm_def openEditIssueDialog_def

lemma count_step:
  assumes "offered s e" and "pendingUploads s = int (length (uploads s))"
  shows "pendingUploads (step e s) = int (length (uploads (step e s)))"
  using assms
  by (cases e) (auto simp: page_defs min_def split: option.split sum.split)

lemma count_run:
  "pendingUploads s = int (length (uploads s)) \<Longrightarrow>
   pendingUploads (run evs s) = int (length (uploads (run evs s)))"
  by (induction evs arbitrary: s) (simp_all add: count_step)

lemma count_initial: "pendingUploads initial_page = int (length (uploads initial_page))"
  by (simp add: initial_page_def)

text \<open>
  C6: choosing a file raises the counter by exactly 1 before the upload starts, and
  the settling of an upload in flight lowers it by exactly 1, whether the upload
  resolved or failed. So in every state that the page reaches the counter is the
  number of uploads in flight, and once the uploads in flight are the same as
  before, the counter is what it was.
\<close>

theorem pendingUploads_counts_uploads:
  "pendingUploads (run evs initial_page) = int (length (uploads (run evs initial_page))) \<and>
   pendingUploads (handleCase1PhotoUpload index (Some file) previewUrl s) = pendingUploads s + 1 \<and>
   pendingUploads (handleCase2PhotoUpload index (Some file) previewUrl s) = pendingUploads s + 1 \<and>
   (k < length (uploads (run evs initial_page)) \<longrightarrow>
      pendingUploads (step (UploadSettled k outcome) (run evs initial_page)) =
        pendingUploads (run evs initial_page) - 1) \<and>
   (uploads (run evs' (run evs initial_page)) = uploads (run evs initial_page) \<longrightarrow>
      pendingUploads (run evs' (run evs initial_page)) = pendingUploads (run evs initial_page))"
proof -
  have inv: "pendingUploads (run evs initial_page) = int (length (uploads (run evs initial_page)))"
    for evs
    by (rule count_run [OF count_initial])
  have down: "pendingUploads (step (UploadSettled k outcome) (run evs initial_page)) =
        pendingUploads (run evs initial_page) - 1"
    if "k < length (uploads (run evs initial_page))"
    using that inv [of evs] by (simp add: upload_settled_def)
  have same: "pendingUploads (run evs' (run evs initial_page)) = pendingUploads (run evs initial_page)"
    if "uploads (run evs' (run evs initial_page)) = uploads (run evs initial_page)"
    using that count_run [OF inv [of evs], of evs'] inv [of evs] by simp
  show ?thesis
    using inv down same
    by (simp add: handleCase1PhotoUpload_def handleCase2PhotoUpload_def)
qed

theorem pendingUploads_counts_uploads_witness:
  "0 < length (uploads (run one_upload initial_page)) \<and>
   pendingUploads (run one_upload initial_page) = 1 \<and>
   pendingUploads (step (UploadSettled 0 None) (run one_upload initial_page)) = 0 \<and>
   uploads (run [UploadSettled 0 (Some ''https://cdn/p.jpg'')] (run one_upload initial_page)) =
     uploads (run [] initial_page) \<and>
   pendingUploads (run (one_upload @ [UploadSettled 0 (Some ''https://cdn/p.jpg'')]) initial_page) = 0"
  using pendingUploads_counts_uploads [of one_upload 0 small_file "''blob:a''" initial_page 0 None "[]"]
    pendingUploads_counts_uploads [of "[]" 0 small_file "''blob:a''" initial_page 0 None
       "one_upload @ [UploadSettled 0 (Some ''https://cdn/p.jpg'')]"]
  by (simp add: one_upload_def initial_page_def page_defs)

lemma nonneg_step: "0 \<le> pendingUploads s \<Longrightarrow> 0 \<le> pendingUploads (step e s)"
  by (cases e) (simp_all add: page_defs split: option.split sum.split)

lemma nonneg_fold: "0 \<le> pendingUploads s \<Longrightarrow> 0 \<le> pendingUploads (fold step evs s)"
  by (induction evs arbitrary: s) (simp_all add: nonneg_step)

lemma nonneg_run: "0 \<le> pendingUploads s \<Longrightarrow> 0 \<le> pendingUploads (run evs s)"
  by (induction evs arbitrary: s) (simp_all add: nonneg_step)

text \<open>
  C10: the counter is never negative, in the states that the page reaches and
  after any sequence of events at all, matched or not; the \<open>finally\<close> block leaves
  it at 0 or above from any state.
\<close>

theorem pendingUploads_never_negative:
  "0 \<le> pendingUploads (run evs initial_page) \<and>
   0 \<le> pendingUploads (fold step evs initial_page) \<and>
   0 \<le> pendingUploads (upload_settled u outcome s)"
  by (simp add: nonneg_run nonneg_fold initial_page_def)
     (simp add: upload_settled_def)

section \<open>Saving an edited issue\<close>

lemma length_js_set: "length (js_set xs i v) = max (length xs) (Suc i)"
  by (simp add: js_set_def)

lemma length_case1_write:
  "length (photos (case1Data (case1_write index v d))) =
     max (length (photos (case1Data d))) (Suc index)"
  by (simp add: case1_write_def length_js_set length_js_spread)

lemma length_case2_write:
  "length (items (case2Data (case2_write itemIndex v d))) =
     max (length (items (case2Data d))) (Suc itemIndex)"
  by (simp add: case2_write_def Let_def length_js_set length_js_spread)

lemma item_photo_in_range: "item_photo xs i = Some v \<Longrightarrow> i < length xs"
  by (auto simp: item_photo_def dest: js_get_in_range split: option.splits)

lemma settle_draft_lengths:
  "length (photos (case1Data (settle_draft u outcome d))) = length (photos (case1Data d)) \<and>
   length (items (case2Data (settle_draft u outcome d))) = length (items (case2Data d))"
proof (cases u)
  case (Case1Upload index previewUrl)
  then show ?thesis
    by (cases outcome)
       (auto simp: case1_resolved_def case1_rejected_def length_case1_write
          case1_write_case2Data dest: js_get_in_range)
next
  case (Case2Upload itemIndex previewUrl)
  then show ?thesis
    by (cases outcome)
       (auto simp: case2_resolved_def case2_rejected_def length_case2_write
          case2_write_case1Data dest: item_photo_in_range)
qed

lemma case2_assign_lengths:
  "case2_assign itemIndex f d = Inr d' \<Longrightarrow>
   length (items (case2Data d')) = length (items (case2Data d)) \<and> case1Data d' = case1Data d"
  by (auto simp: case2_assign_def Let_def length_js_spread split: option.splits)

lemma hydrate_lengths:
  "length (items (case2Data (hydrate issue))) = 3 \<and>
   length (photos (case1Data (hydrate issue))) \<le> 3"
  by (simp add: hydrate_def Let_def emptyIssueForm_def)

lemma page_shape_initial: "page_shape initial_page"
  by (simp add: page_shape_def initial_page_def emptyIssueForm_def)

lemma page_shape_step:
  assumes "offered s e" and "page_shape s"
  shows "page_shape (step e s)"
proof (cases e)
  case (Case1PhotoChosen index chosen previewUrl)
  with assms show ?thesis
    by (cases chosen)
       (auto simp: page_shape_def handleCase1PhotoUpload_def case1_preview_def
          length_case1_write case1_write_case2Data)
next
  case (Case2PhotoChosen itemIndex chosen previewUrl)
  with assms show ?thesis
    by (cases chosen)
       (auto simp: page_shape_def handleCase2PhotoUpload_def case2_preview_def
          length_case2_write case2_write_case1Data rendered_item_def)
next
  case (Case2SubItemSelected itemIndex v)
  with assms show ?thesis
    by (auto simp: page_shape_def set_draft_def dest: case2_assign_lengths split: sum.split)
next
  case (Case2QuantityChanged itemIndex n)
  with assms show ?thesis
    by (auto simp: page_shape_def set_draft_def dest: case2_assign_lengths split: sum.split)
next
  case (Case2PriceChanged itemIndex n)
  with assms show ?thesis
    by (auto simp: page_shape_def set_draft_def dest: case2_assign_lengths split: sum.split)
next
  case (UploadSettled k outcome)
  with assms show ?thesis
    by (simp add: page_shape_def upload_settled_def settle_draft_lengths)
next
  case (EditIssueClicked issue)
  with assms show ?thesis
    by (simp add: page_shape_def openEditIssueDialog_def hydrate_lengths)
qed (use assms in \<open>simp_all add: page_shape_def openAddIssueDialog_def resetIssueForm_def
      emptyIssueForm_def\<close>)

lemma page_shape_run: "page_shape s \<Longrightarrow> page_shape (run evs s)"
  by (induction evs arbitrary: s) (simp_all add: page_shape_step)


text \<open>
  The page that \<open>handleSaveIssue\<close> leaves is the one it found, or the one that the
  three closing events give.
\<close>

lemma handleSaveIssue_page:
  assumes "\<not> isSavingIssue s"
    and "handleSaveIssue answer routeId savedIssue loaded s st = Inr (issued, st', s')"
  shows "s' = s \<or> s' = run [ReportLoaded loaded, FormReset, DialogOpenChanged False] s"
proof -
  from assms(1) have same: "s\<lparr>isSavingIssue := False\<rparr> = s"
    by simp
  from assms show ?thesis
    unfolding handleSaveIssue_def
    by (auto simp: same resetIssueForm_def
        split: option.splits if_splits sum.splits bool.splits prod.splits)
qed

lemma filter_all:
  assumes "length (filter P xs) = n" and "length xs \<le> n"
  shows "length xs = n \<and> (\<forall>x\<in>set xs. P x)"
proof -
  have "length (filter P xs) \<le> length xs" by simp
  with assms have len: "length xs = n" by simp
  have "P x" if "x \<in> set xs" for x
  proof (rule ccontr)
    assume "\<not> P x"
    with that have "length (filter P xs) < length xs" by (rule length_filter_less)
    with assms(1) len show False by simp
  qed
  with len show ?thesis by blast
qed

lemma photo_rows_issue_id:
  "\<forall>r\<in>set (rows_of (map (photo_row_of i) ps)). issue_photo_row.issue_id r = i"
  by (induction ps rule: rows_of.induct) auto

lemma photo_rows_length:
  "\<forall>p\<in>set ps. truthy_photo p \<Longrightarrow> length (rows_of (map (photo_row_of i) ps)) = length ps"
  by (induction ps rule: rows_of.induct) auto

lemma validItems_le: "validItems xs = Inr vs \<Longrightarrow> length vs \<le> length xs"
  by (induction xs arbitrary: vs rule: validItems.induct)
     (fastforce split: if_splits sum.splits)+

lemma validItems_full:
  "validItems xs = Inr vs \<Longrightarrow> length vs = length xs \<Longrightarrow> xs = map Val vs"
proof (induction xs arbitrary: vs rule: validItems.induct)
  case 1
  then show ?case by simp
next
  case (2 xs)
  from validItems_le [of xs vs] 2 show ?case by simp
next
  case (3 xs)
  then show ?case by simp
next
  case (4 it xs)
  show ?case
  proof (cases "valid_item it")
    case True
    with 4 show ?thesis by (auto split: sum.splits)
  next
    case False
    with 4 validItems_le [of xs vs] show ?thesis by simp
  qed
qed

lemma map_items_Val: "map_items f (map Val its) = Inr (map (\<lambda>it. Val (f it)) its)"
  by (induction its) simp_all

lemma rows_of_Val: "rows_of (map (\<lambda>it. Val (f it)) its) = map f its"
  by (induction its) simp_all

lemma insert_calls_valid:
  assumes valid: "validateIssue d = Inr True"
    and shape: "length (items (case2Data d)) = 3" "length (photos (case1Data d)) \<le> 3"
  shows "\<exists>newItems newPhotos.
           insert_calls subs i d =
             [Inr (InsertIssueItems newItems), Inr (InsertIssuePhotos newPhotos)] \<and>
           length (rows_of newItems) = (if caseType d = case1 then 1 else 3) \<and>
           length (rows_of newPhotos) = 3 \<and>
           (\<forall>r\<in>set (rows_of newItems). issue_item_row.issue_id r = i) \<and>
           (\<forall>r\<in>set (rows_of newPhotos). issue_photo_row.issue_id r = i)"
proof (cases "caseType d = case1")
  case True
  from valid True have "length (filter truthy_photo (photos (case1Data d))) = 3"
    by (simp add: validateIssue_def split: if_splits)
  from filter_all [OF this shape(2)]
  have "length (photos (case1Data d)) = 3" and "\<forall>p\<in>set (photos (case1Data d)). truthy_photo p"
    by simp_all
  then have "length (rows_of (map (photo_row_of i) (photos (case1Data d)))) = 3"
    by (simp add: photo_rows_length)
  with True photo_rows_issue_id [of i "photos (case1Data d)"] show ?thesis
    by (simp add: insert_calls_def)
next
  case False
  from valid False obtain vs where vs: "validItems (items (case2Data d)) = Inr vs"
    and three: "length vs = 3"
    by (auto simp: validateIssue_def split: if_splits sum.splits)
  from validItems_full [OF vs] three shape(1) have xs: "items (case2Data d) = map Val vs"
    by simp
  show ?thesis
    using False three
    by (simp add: insert_calls_def xs map_items_Val call_with_def rows_of_Val item_row_of_def)
qed

lemma exec_all_Done:
  "\<forall>j<length ops. answer (k + j) = Done \<Longrightarrow>
   exec answer k (map Inr ops) st = (ops, fold apply_op ops st, False)"
proof (induction ops arbitrary: k st)
  case Nil
  then show ?case by simp
next
  case (Cons c ops)
  from Cons.prems have first: "answer k = Done" by force
  from Cons.prems have "\<forall>j<length ops. answer (Suc k + j) = Done" by force
  from Cons.IH [OF this] first show ?case by simp
qed


lemma replaced_rows:
  assumes "\<forall>r\<in>set new. key r = i"
  shows "filter (\<lambda>r. key r = i) (filter (\<lambda>r. key r \<noteq> i) old @ new) = new"
proof -
  have "filter (\<lambda>r. key r = i) (filter (\<lambda>r. key r \<noteq> i) old) = []"
    by (induction old) auto
  moreover from assms have "filter (\<lambda>r. key r = i) new = new"
    by (induction new) auto
  ultimately show ?thesis by simp
qed

text \<open>
  C7: in every state that the page reaches, when an existing issue is open for
  editing, no upload is pending, the draft passes \<open>validateIssue\<close> and the store
  carries out all five writes, \<open>handleSaveIssue\<close> issues the update of the issue row,
  the two deletes by issue id and the two inserts, in this order, and afterwards
  the rows of that issue are exactly the rows just inserted: 1 item and 3 photos
  for \<open>case1\<close>, 3 items and 3 photos for \<open>case2\<close>. No row of the earlier save is left.
\<close>

theorem edit_save_replaces_children:
  assumes reach: "s = run evs initial_page"
    and mode: "issueDialogMode s = edit" "editingIssueId s = Some i" "i \<noteq> []"
    and rep: "report s = Some r" "routeId = Some rid" "rid \<noteq> []"
    and idle: "pendingUploads s = 0"
    and valid: "validateIssue (currentIssue s) = Inr True"
    and answers: "\<forall>k<5. answer k = Done"
  shows "case handleSaveIssue answer routeId savedIssue loaded s st of
           Inl e \<Rightarrow> False
         | Inr (issued, st', s') \<Rightarrow>
             (\<exists>newItems newPhotos.
                issued = [UpdateIssue i (issueData r (currentIssue s)),
                          DeleteIssueItemsEq i, DeleteIssuePhotosEq i,
                          InsertIssueItems newItems, InsertIssuePhotos newPhotos] \<and>
                filter (\<lambda>row. issue_item_row.issue_id row = i) (store.issue_items st')
                  = rows_of newItems \<and>
                filter (\<lambda>row. issue_photo_row.issue_id row = i) (store.issue_photos st')
                  = rows_of newPhotos) \<and>
             length (filter (\<lambda>row. issue_item_row.issue_id row = i) (store.issue_items st'))
               = (if caseType (currentIssue s) = case1 then 1 else 3) \<and>
             length (filter (\<lambda>row. issue_photo_row.issue_id row = i) (store.issue_photos st'))
               = 3"
proof -
  from reach have shape: "page_shape s"
    by (simp add: page_shape_run page_shape_initial)
  then have lens: "length (items (case2Data (currentIssue s))) = 3"
    "length (photos (case1Data (currentIssue s))) \<le> 3" and idle': "\<not> isSavingIssue s"
    by (simp_all add: page_shape_def)
  from insert_calls_valid [OF valid lens, of "subItems s" i]
  obtain newItems newPhotos where
    calls: "insert_calls (subItems s) i (currentIssue s) =
              [Inr (InsertIssueItems newItems), Inr (InsertIssuePhotos newPhotos)]"
    and n_items: "length (rows_of newItems) = (if caseType (currentIssue s) = case1 then 1 else 3)"
    and n_photos: "length (rows_of newPhotos) = 3"
    and id_items: "\<forall>r\<in>set (rows_of newItems). issue_item_row.issue_id r = i"
    and id_photos: "\<forall>r\<in>set (rows_of newPhotos). issue_photo_row.issue_id r = i"
    by blast
  let ?ops = "[UpdateIssue i (issueData r (currentIssue s)),
               DeleteIssueItemsEq i, DeleteIssuePhotosEq i,
               InsertIssueItems newItems, InsertIssuePhotos newPhotos]"
  have script: "save_calls savedIssue r s = map Inr ?ops"
    using mode calls by (simp add: save_calls_def)
  have "\<forall>j<length ?ops. answer (0 + j) = Done"
    using answers by simp
  from exec_all_Done [OF this]
  have run: "exec answer 0 (save_calls savedIssue r s) st = (?ops, fold apply_op ?ops st, False)"
    by (simp only: script)
  have items': "filter (\<lambda>row. issue_item_row.issue_id row = i)
                  (store.issue_items (fold apply_op ?ops st)) = rows_of newItems"
    using replaced_rows [OF id_items] by simp
  have photos': "filter (\<lambda>row. issue_photo_row.issue_id row = i)
                  (store.issue_photos (fold apply_op ?ops st)) = rows_of newPhotos"
    using replaced_rows [OF id_photos] by simp
  have result: "handleSaveIssue answer routeId savedIssue loaded s st =
      Inr (?ops, fold apply_op ?ops st,
           (resetIssueForm (s\<lparr>isSavingIssue := False, report := loaded\<rparr>))
             \<lparr>isIssueDialogOpen := False\<rparr>)"
    using idle' rep idle valid by (simp add: handleSaveIssue_def run)
  show ?thesis
    unfolding result using items' photos' n_items n_photos by simp
qed


lemma open_for_edit_page:
  "run open_for_edit initial_page =
     initial_page\<lparr>currentIssue := hydrate saved_issue, editingIssueId := Some ''i1'',
       issueDialogMode := edit, isIssueDialogOpen := True, report := Some loaded_report\<rparr>"
  by (simp add: open_for_edit_def openEditIssueDialog_def saved_issue_def)

lemma hydrate_saved_issue: "validateIssue (hydrate saved_issue) = Inr True"
  by (simp add: hydrate_def saved_issue_def Let_def emptyIssueForm_def nth_opt_def
      sub_item_id_or_empty_def quantity_or_1_def price_or_0_def validateIssue_def)

theorem edit_save_replaces_children_witness:
  "issueDialogMode (run open_for_edit initial_page) = edit \<and>
   editingIssueId (run open_for_edit initial_page) = Some ''i1'' \<and>
   report (run open_for_edit initial_page) = Some loaded_report \<and>
   pendingUploads (run open_for_edit initial_page) = 0 \<and>
   validateIssue (currentIssue (run open_for_edit initial_page)) = Inr True \<and>
   (case handleSaveIssue (\<lambda>k. Done) (Some ''r1'') None (Some loaded_report)
           (run open_for_edit initial_page) earlier_store of
      Inl e \<Rightarrow> False
    | Inr (issued, st', s') \<Rightarrow>
        length (filter (\<lambda>row. issue_item_row.issue_id row = ''i1'') (store.issue_items st')) = 1 \<and>
        length (filter (\<lambda>row. issue_photo_row.issue_id row = ''i1'') (store.issue_photos st')) = 3)"
proof -
  have mode: "issueDialogMode (run open_for_edit initial_page) = edit"
    and editing: "editingIssueId (run open_for_edit initial_page) = Some ''i1''"
    and rep: "report (run open_for_edit initial_page) = Some loaded_report"
    and idle: "pendingUploads (run open_for_edit initial_page) = 0"
    and draft: "currentIssue (run open_for_edit initial_page) = hydrate saved_issue"
    by (simp_all add: open_for_edit_page) (simp add: initial_page_def)
  have valid: "validateIssue (currentIssue (run open_for_edit initial_page)) = Inr True"
    by (simp only: draft hydrate_saved_issue)
  have single: "caseType (currentIssue (run open_for_edit initial_page)) = case1"
    by (simp add: draft hydrate_def saved_issue_def Let_def emptyIssueForm_def)
  have answers: "\<forall>k<5. (\<lambda>k. Done) k = Done"
    by simp
  from edit_save_replaces_children
    [OF refl mode editing _ rep refl _ idle valid answers,
     of "''r1''" None "Some loaded_report" earlier_store]
  have "case handleSaveIssue (\<lambda>k. Done) (Some ''r1'') None (Some loaded_report)
           (run open_for_edit initial_page) earlier_store of
      Inl e \<Rightarrow> False
    | Inr (issued, st', s') \<Rightarrow>
        length (filter (\<lambda>row. issue_item_row.issue_id row = ''i1'') (store.issue_items st')) = 1 \<and>
        length (filter (\<lambda>row. issue_photo_row.issue_id row = ''i1'') (store.issue_photos st')) = 3"
    by (simp add: single split: sum.splits prod.splits)
  with mode editing rep idle valid show ?thesis
    by blast
qed

section \<open>The numbers of a reachable draft\<close>












section \<open>Deleting a report\<close>

lemma exec_prefix:
  "exec answer k (map Inr ops) st = (issued, st', threw) \<Longrightarrow>
   (\<exists>n. issued = take n ops) \<and> (\<not> threw \<longrightarrow> issued = ops)"
proof (induction ops arbitrary: k st issued st' threw)
  case Nil
  then show ?case by simp
next
  case (Cons c ops)
  show ?case
  proof (cases "answer k")
    case Thrown
    with Cons.prems have "issued = take 1 (c # ops)" and "threw" by simp_all
    then show ?thesis by blast
  next
    case Failed
    with Cons.prems obtain rest where rest: "exec answer (Suc k) (map Inr ops) st = (rest, st', threw)"
      and issued: "issued = c # rest"
      by (auto split: prod.splits)
    from Cons.IH [OF rest] obtain n where "rest = take n ops" and "\<not> threw \<longrightarrow> rest = ops"
      by blast
    with issued have "issued = take (Suc n) (c # ops)" and "\<not> threw \<longrightarrow> issued = c # ops"
      by simp_all
    then show ?thesis by blast
  next
    case Done
    with Cons.prems obtain rest where
      rest: "exec answer (Suc k) (map Inr ops) (apply_op c st) = (rest, st', threw)"
      and issued: "issued = c # rest"
      by (auto split: prod.splits)
    from Cons.IH [OF rest] obtain n where "rest = take n ops" and "\<not> threw \<longrightarrow> rest = ops"
      by blast
    with issued have "issued = take (Suc n) (c # ops)" and "\<not> threw \<longrightarrow> issued = c # ops"
      by simp_all
    then show ?thesis by blast
  qed
qed

text \<open>
  C8: the calls that \<open>handleDeleteReport\<close> issues are always an initial part of the
  sequence: delete the \<open>issue_items\<close> of the report's issue ids, delete their
  \<open>issue_photos\<close>, delete the \<open>report_issues\<close> rows, delete the report (the first
  three only when the report has issues). So no later call is ever issued before
  an earlier one, and when the handler goes on to the dashboard all of them were
  issued, in this order. Without a route id or without confirmation nothing is
  issued.
\<close>

theorem delete_report_order:
  assumes "handleDeleteReport answer routeId confirmDelete s st = (issued, st', navigated)"
    and "issueIds = issueIds_of (report s)"
  shows "(routeId = None \<or> routeId = Some [] \<or> \<not> confirmDelete \<longrightarrow> issued = []) \<and>
         (\<forall>rid. routeId = Some rid \<longrightarrow>
            (\<exists>n. issued = take n
               (if issueIds = [] then [DeleteReport rid]
                else [DeleteIssueItemsIn issueIds, DeleteIssuePhotosIn issueIds,
                      DeleteReportIssuesIn issueIds, DeleteReport rid])) \<and>
            (navigated \<longrightarrow> issued =
               (if issueIds = [] then [DeleteReport rid]
                else [DeleteIssueItemsIn issueIds, DeleteIssuePhotosIn issueIds,
                      DeleteReportIssuesIn issueIds, DeleteReport rid])))"
proof (cases "routeId = None \<or> routeId = Some [] \<or> \<not> confirmDelete")
  case True
  with assms(1) have "issued = []" and "\<not> navigated"
    by (auto simp: handleDeleteReport_def split: option.splits if_splits)
  then show ?thesis by auto
next
  case False
  then obtain rid where rid: "routeId = Some rid" "rid \<noteq> []" and yes: confirmDelete
    by auto
  let ?ops = "if issueIds = [] then [DeleteReport rid]
              else [DeleteIssueItemsIn issueIds, DeleteIssuePhotosIn issueIds,
                    DeleteReportIssuesIn issueIds, DeleteReport rid]"
  have script: "delete_calls (issueIds_of (report s)) rid = ?ops"
    using assms(2) by (simp add: delete_calls_def)
  have "handleDeleteReport answer routeId confirmDelete s st =
          (case exec answer 0 (map Inr ?ops) st of
             (issued, st', threw) \<Rightarrow> (issued, st', \<not> threw))"
    using rid yes by (simp add: handleDeleteReport_def script)
  with assms(1) obtain threw where
    "exec answer 0 (map Inr ?ops) st = (issued, st', threw)" and "navigated = (\<not> threw)"
    by (auto split: prod.splits)
  from exec_prefix [OF this(1)] this(2)
  have "(\<exists>n. issued = take n ?ops) \<and> (navigated \<longrightarrow> issued = ?ops)"
    by simp
  with rid False show ?thesis by simp
qed


theorem delete_report_order_witness:
  "handleDeleteReport (\<lambda>k. Done) (Some ''r1'') True report_page stored =
     ([DeleteIssueItemsIn [''i1'', ''i2''], DeleteIssuePhotosIn [''i1'', ''i2''],
       DeleteReportIssuesIn [''i1'', ''i2''], DeleteReport ''r1''],
      stored\<lparr>reports := []\<rparr>, True) \<and>
   [''i1'', ''i2''] = issueIds_of (report report_page) \<and>
   (\<exists>n. [DeleteIssueItemsIn [''i1'', ''i2''], DeleteIssuePhotosIn [''i1'', ''i2''],
          DeleteReportIssuesIn [''i1'', ''i2''], DeleteReport ''r1''] =
         take n [DeleteIssueItemsIn [''i1'', ''i2''], DeleteIssuePhotosIn [''i1'', ''i2''],
                 DeleteReportIssuesIn [''i1'', ''i2''], DeleteReport ''r1''])"
proof -
  have ids: "issueIds_of (report report_page) = [''i1'', ''i2'']"
    by (simp add: issueIds_of_def report_page_def two_issue_report_def saved_issue_def)
  have run: "handleDeleteReport (\<lambda>k. Done) (Some ''r1'') True report_page stored =
     ([DeleteIssueItemsIn [''i1'', ''i2''], DeleteIssuePhotosIn [''i1'', ''i2''],
       DeleteReportIssuesIn [''i1'', ''i2''], DeleteReport ''r1''],
      stored\<lparr>reports := []\<rparr>, True)"
    by (simp add: handleDeleteReport_def ids delete_calls_def stored_def)
  from delete_report_order [OF run ids [symmetric]]
  have "\<exists>n. [DeleteIssueItemsIn [''i1'', ''i2''], DeleteIssuePhotosIn [''i1'', ''i2''],
          DeleteReportIssuesIn [''i1'', ''i2''], DeleteReport ''r1''] =
         take n [DeleteIssueItemsIn [''i1'', ''i2''], DeleteIssuePhotosIn [''i1'', ''i2''],
                 DeleteReportIssuesIn [''i1'', ''i2''], DeleteReport ''r1'']"
    by simp
  with run ids [symmetric] show ?thesis
    by (intro conjI)
qed

section \<open>The statuses of the map-photo endpoint\<close>

lemma is_number_iff: "is_number v \<longleftrightarrow> (\<exists>n. v = JNumber n)"
  by (cases v) auto

lemma is_NaN_iff: "is_NaN v \<longleftrightarrow> v = JNumber NaN"
  by (cases v rule: is_NaN.cases) auto

lemma status_code_caught: "status_code (caught e) = 500"
  by (simp add: caught_def respond_def)

lemma fetch_and_store_status:
  "status_code (fetch_and_store env latNum lngNum apiKey resolvedId resolvedType) \<in> {200, 502, 500}"
  by (simp add: fetch_and_store_def status_code_caught respond_def Let_def
      split: sum.split option.split)

lemma fetch_and_store_502:
  "status_code (fetch_and_store env latNum lngNum apiKey resolvedId resolvedType) = 502 \<longleftrightarrow>
     (\<exists>r t. fetch_map env latNum lngNum apiKey = Inr r \<and> \<not> ok r \<and> text' r = Inr t)"
  by (auto simp: fetch_and_store_def status_code_caught respond_def Let_def
      split: sum.split option.split)

lemma fetch_and_store_200:
  assumes "path = ''map-photos/'' @ or_string (filter safe_char resolvedType) ''map'' @ ''-'' @
                    template_text env resolvedId @ ''.jpg''"
  shows "status_code (fetch_and_store env latNum lngNum apiKey resolvedId resolvedType) = 200 \<longleftrightarrow>
            (\<exists>r buffer url. fetch_map env latNum lngNum apiKey = Inr r \<and> ok r \<and>
               arrayBuffer r = Inr buffer \<and>
               storage_upload env path buffer = Inr None \<and> getPublicUrl env path = Inr url)"
  unfolding assms fetch_and_store_def Let_def
  by (auto simp: status_code_caught respond_def split: sum.split option.split)

lemma fetch_and_store_body:
  assumes "path = ''map-photos/'' @ or_string (filter safe_char resolvedType) ''map'' @ ''-'' @
                    template_text env resolvedId @ ''.jpg''"
    and "status_code (fetch_and_store env latNum lngNum apiKey resolvedId resolvedType) = 200"
    and "getPublicUrl env path = Inr url"
  shows "body (fetch_and_store env latNum lngNum apiKey resolvedId resolvedType) =
           SuccessResponse url path"
  using assms(2,3) unfolding assms(1) fetch_and_store_def Let_def
  by (auto simp: status_code_caught respond_def caught_def split: sum.splits option.splits)

lemma fetch_and_store_500:
  assumes "path = ''map-photos/'' @ or_string (filter safe_char resolvedType) ''map'' @ ''-'' @
                    template_text env resolvedId @ ''.jpg''"
  shows "status_code (fetch_and_store env latNum lngNum apiKey resolvedId resolvedType) = 500 \<longleftrightarrow>
            (\<exists>e. fetch_map env latNum lngNum apiKey = Inl e) \<or>
            (\<exists>r e. fetch_map env latNum lngNum apiKey = Inr r \<and> \<not> ok r \<and> text' r = Inl e) \<or>
            (\<exists>r e. fetch_map env latNum lngNum apiKey = Inr r \<and> ok r \<and> arrayBuffer r = Inl e) \<or>
            (\<exists>r buffer. fetch_map env latNum lngNum apiKey = Inr r \<and> ok r \<and>
               arrayBuffer r = Inr buffer \<and>
               (storage_upload env path buffer \<noteq> Inr None \<or>
                (\<exists>e. getPublicUrl env path = Inl e)))"
  unfolding assms fetch_and_store_def Let_def
  by (auto simp: status_code_caught respond_def split: sum.split option.split)

lemma handler_rejects:
  assumes "method' req = Some ''POST''" and "or_string (gmapsKey env) (GMAPS_KEY env) \<noteq> []"
    and "(\<forall>n. to_number env (lat req) \<noteq> JNumber n) \<or>
         (\<forall>n. to_number env (lng req) \<noteq> JNumber n) \<or>
         to_number env (lat req) = JNumber NaN \<or> to_number env (lng req) = JNumber NaN \<or>
         (\<not> truthy (targetId req) \<and> \<not> truthy (reportId req))"
  shows "handler env req = respond 400 (ErrorResponse LatLngTargetRequired)"
  using assms by (auto simp: handler_def Let_def is_number_iff is_NaN_iff)

lemma handler_goes_on:
  assumes "method' req = Some ''POST''" and "or_string (gmapsKey env) (GMAPS_KEY env) \<noteq> []"
    and "\<not> ((\<forall>n. to_number env (lat req) \<noteq> JNumber n) \<or>
         (\<forall>n. to_number env (lng req) \<noteq> JNumber n) \<or>
         to_number env (lat req) = JNumber NaN \<or> to_number env (lng req) = JNumber NaN \<or>
         (\<not> truthy (targetId req) \<and> \<not> truthy (reportId req)))"
  shows "handler env req =
           fetch_and_store env (to_number env (lat req)) (to_number env (lng req))
             (or_string (gmapsKey env) (GMAPS_KEY env))
             (if truthy (targetId req) then targetId req else reportId req)
             (case targetType req of
                JString t \<Rightarrow>
                  if t = [] then (if truthy (reportId req) then ''report'' else ''mosque'') else t
              | _ \<Rightarrow> if truthy (reportId req) then ''report'' else ''mosque'')"
proof -
  have kind: "(case targetType req of
                 JString t \<Rightarrow>
                   if length t > 0 then t
                   else if truthy (reportId req) then ''report'' else ''mosque''
               | _ \<Rightarrow> if truthy (reportId req) then ''report'' else ''mosque'') =
              (case targetType req of
                 JString t \<Rightarrow>
                   if t = [] then (if truthy (reportId req) then ''report'' else ''mosque'') else t
               | _ \<Rightarrow> if truthy (reportId req) then ''report'' else ''mosque'')"
    by (simp split: jsval.split)
  from assms show ?thesis
    unfolding handler_def Let_def kind
    by (auto simp: is_number_iff is_NaN_iff)
qed

text \<open>
  C9: the handler answers 405 to every request whose method is not POST. For a
  POST without a configured key it answers 500. For a POST with a key it answers
  400 if and only if the resolved latitude or longitude is not a number or is NaN,
  or neither \<open>targetId\<close> nor \<open>reportId\<close> gives an identifier. Otherwise it goes on
  to the provider and the bucket, and its answer is
  200 exactly when the provider answered with success, the image bytes were read,
  the upload to \<open>map-photos/{type}-{id}.jpg\<close> returned no error and the public URL
  was obtained, and then the body is that URL and that path;
  502 exactly when the provider answered without success (and the text of its
  answer could be read);
  500 exactly when the upload returned an error or anything was thrown (by the
  fetch, by reading the answer, by the upload or by \<open>getPublicUrl\<close>).
\<close>

theorem map_photo_statuses:
  "let code = status_code (handler env req);
       apiKey = or_string (gmapsKey env) (GMAPS_KEY env);
       latNum = to_number env (lat req);
       lngNum = to_number env (lng req);
       unusable = ((\<forall>n. latNum \<noteq> JNumber n) \<or> (\<forall>n. lngNum \<noteq> JNumber n) \<or>
                   latNum = JNumber NaN \<or> lngNum = JNumber NaN \<or>
                   (\<not> truthy (targetId req) \<and> \<not> truthy (reportId req)));
       resolvedId = (if truthy (targetId req) then targetId req else reportId req);
       resolvedType =
         (case targetType req of
            JString t \<Rightarrow>
              if t = [] then (if truthy (reportId req) then ''report'' else ''mosque'') else t
          | _ \<Rightarrow> if truthy (reportId req) then ''report'' else ''mosque'');
       path = ''map-photos/'' @ or_string (filter safe_char resolvedType) ''map'' @ ''-'' @
              template_text env resolvedId @ ''.jpg'';
       fetched = fetch_map env latNum lngNum apiKey
   in (method' req \<noteq> Some ''POST'' \<longrightarrow> code = 405) \<and>
      (method' req = Some ''POST'' \<and> apiKey = [] \<longrightarrow> code = 500) \<and>
      (method' req = Some ''POST'' \<and> apiKey \<noteq> [] \<longrightarrow>
         (code = 400 \<longleftrightarrow> unusable) \<and>
         (\<not> unusable \<longrightarrow>
            code \<in> {200, 502, 500} \<and>
            (code = 502 \<longleftrightarrow>
               (\<exists>r t. fetched = Inr r \<and> \<not> ok r \<and> text' r = Inr t)) \<and>
            (code = 200 \<longleftrightarrow>
               (\<exists>r buffer url. fetched = Inr r \<and> ok r \<and> arrayBuffer r = Inr buffer \<and>
                  storage_upload env path buffer = Inr None \<and>
                  getPublicUrl env path = Inr url)) \<and>
            (\<forall>url. code = 200 \<and> getPublicUrl env path = Inr url \<longrightarrow>
               body (handler env req) = SuccessResponse url path) \<and>
            (code = 500 \<longleftrightarrow>
               (\<exists>e. fetched = Inl e) \<or>
               (\<exists>r e. fetched = Inr r \<and> \<not> ok r \<and> text' r = Inl e) \<or>
               (\<exists>r e. fetched = Inr r \<and> ok r \<and> arrayBuffer r = Inl e) \<or>
               (\<exists>r buffer. fetched = Inr r \<and> ok r \<and> arrayBuffer r = Inr buffer \<and>
                  (storage_upload env path buffer \<noteq> Inr None \<or>
                   (\<exists>e. getPublicUrl env path = Inl e))))))"
proof -
  let ?apiKey = "or_string (gmapsKey env) (GMAPS_KEY env)"
  let ?latNum = "to_number env (lat req)"
  let ?lngNum = "to_number env (lng req)"
  let ?unusable = "(\<forall>n. ?latNum \<noteq> JNumber n) \<or> (\<forall>n. ?lngNum \<noteq> JNumber n) \<or>
         ?latNum = JNumber NaN \<or> ?lngNum = JNumber NaN \<or>
         (\<not> truthy (targetId req) \<and> \<not> truthy (reportId req))"
  let ?resolvedId = "if truthy (targetId req) then targetId req else reportId req"
  let ?resolvedType = "case targetType req of
            JString t \<Rightarrow>
              if t = [] then (if truthy (reportId req) then ''report'' else ''mosque'') else t
          | _ \<Rightarrow> if truthy (reportId req) then ''report'' else ''mosque''"
  let ?path = "''map-photos/'' @ or_string (filter safe_char ?resolvedType) ''map'' @ ''-'' @
              template_text env ?resolvedId @ ''.jpg''"
  let ?answer = "fetch_and_store env ?latNum ?lngNum ?apiKey ?resolvedId ?resolvedType"
  have not_post: "status_code (handler env req) = 405" if "method' req \<noteq> Some ''POST''"
    using that by (simp add: handler_def respond_def)
  have no_key: "status_code (handler env req) = 500"
    if "method' req = Some ''POST''" and "?apiKey = []"
    using that by (simp add: handler_def respond_def)
  have bad: "status_code (handler env req) = 400"
    if "method' req = Some ''POST''" and "?apiKey \<noteq> []" and "?unusable"
    using handler_rejects [OF that] by (simp add: respond_def)
  have good: "handler env req = ?answer"
    if "method' req = Some ''POST''" and "?apiKey \<noteq> []" and "\<not> ?unusable"
    using handler_goes_on [OF that] .
  have one_of: "status_code ?answer \<in> {200, 502, 500}"
    by (rule fetch_and_store_status)
  have s502: "status_code ?answer = 502 \<longleftrightarrow>
      (\<exists>r t. fetch_map env ?latNum ?lngNum ?apiKey = Inr r \<and> \<not> ok r \<and> text' r = Inr t)"
    by (rule fetch_and_store_502)
  have s200: "status_code ?answer = 200 \<longleftrightarrow>
      (\<exists>r buffer url. fetch_map env ?latNum ?lngNum ?apiKey = Inr r \<and> ok r \<and>
         arrayBuffer r = Inr buffer \<and> storage_upload env ?path buffer = Inr None \<and>
         getPublicUrl env ?path = Inr url)"
    by (rule fetch_and_store_200 [OF refl])
  have b200: "body ?answer = SuccessResponse url ?path"
    if "status_code ?answer = 200" and "getPublicUrl env ?path = Inr url" for url
    using that by (rule fetch_and_store_body [OF refl])
  have s500: "status_code ?answer = 500 \<longleftrightarrow>
      (\<exists>e. fetch_map env ?latNum ?lngNum ?apiKey = Inl e) \<or>
      (\<exists>r e. fetch_map env ?latNum ?lngNum ?apiKey = Inr r \<and> \<not> ok r \<and> text' r = Inl e) \<or>
      (\<exists>r e. fetch_map env ?latNum ?lngNum ?apiKey = Inr r \<and> ok r \<and> arrayBuffer r = Inl e) \<or>
      (\<exists>r buffer. fetch_map env ?latNum ?lngNum ?apiKey = Inr r \<and> ok r \<and>
         arrayBuffer r = Inr buffer \<and>
         (storage_upload env ?path buffer \<noteq> Inr None \<or> (\<exists>e. getPublicUrl env ?path = Inl e)))"
    by (rule fetch_and_store_500 [OF refl])
  define code where "code = status_code (handler env req)"
  define fetched where "fetched = fetch_map env ?latNum ?lngNum ?apiKey"
  define path where "path = ?path"
  define unusable where "unusable \<longleftrightarrow> ?unusable"
  define post where "post \<longleftrightarrow> method' req = Some ''POST''"
  define nokey where "nokey \<longleftrightarrow> ?apiKey = []"
  define reply where "reply = body (handler env req)"
  have first: "\<not> post \<longrightarrow> code = 405" "post \<and> nokey \<longrightarrow> code = 500"
    "post \<and> \<not> nokey \<and> unusable \<longrightarrow> code = 400"
    using not_post no_key bad by (auto simp: code_def post_def nokey_def unusable_def)
  have rest: "code \<in> {200, 502, 500}"
    "code = 502 \<longleftrightarrow> (\<exists>r t. fetched = Inr r \<and> \<not> ok r \<and> text' r = Inr t)"
    "code = 200 \<longleftrightarrow>
       (\<exists>r buffer url. fetched = Inr r \<and> ok r \<and> arrayBuffer r = Inr buffer \<and>
          storage_upload env path buffer = Inr None \<and> getPublicUrl env path = Inr url)"
    "\<forall>url. code = 200 \<and> getPublicUrl env path = Inr url \<longrightarrow> reply = SuccessResponse url path"
    "code = 500 \<longleftrightarrow>
       (\<exists>e. fetched = Inl e) \<or>
       (\<exists>r e. fetched = Inr r \<and> \<not> ok r \<and> text' r = Inl e) \<or>
       (\<exists>r e. fetched = Inr r \<and> ok r \<and> arrayBuffer r = Inl e) \<or>
       (\<exists>r buffer. fetched = Inr r \<and> ok r \<and> arrayBuffer r = Inr buffer \<and>
          (storage_upload env path buffer \<noteq> Inr None \<or> (\<exists>e. getPublicUrl env path = Inl e)))"
    if "post" and "\<not> nokey" and "\<not> unusable"
  proof -
    from that have h: "handler env req = ?answer"
      using good by (simp add: post_def nokey_def unusable_def)
    show "code \<in> {200, 502, 500}"
      unfolding code_def h by (rule one_of)
    show "code = 502 \<longleftrightarrow> (\<exists>r t. fetched = Inr r \<and> \<not> ok r \<and> text' r = Inr t)"
      unfolding code_def h fetched_def by (rule s502)
    show "code = 200 \<longleftrightarrow>
       (\<exists>r buffer url. fetched = Inr r \<and> ok r \<and> arrayBuffer r = Inr buffer \<and>
          storage_upload env path buffer = Inr None \<and> getPublicUrl env path = Inr url)"
      unfolding code_def h fetched_def path_def by (rule s200)
    show "\<forall>url. code = 200 \<and> getPublicUrl env path = Inr url \<longrightarrow> reply = SuccessResponse url path"
      unfolding code_def reply_def h path_def using b200 by blast
    show "code = 500 \<longleftrightarrow>
       (\<exists>e. fetched = Inl e) \<or>
       (\<exists>r e. fetched = Inr r \<and> \<not> ok r \<and> text' r = Inl e) \<or>
       (\<exists>r e. fetched = Inr r \<and> ok r \<and> arrayBuffer r = Inl e) \<or>
       (\<exists>r buffer. fetched = Inr r \<and> ok r \<and> arrayBuffer r = Inr buffer \<and>
          (storage_upload env path buffer \<noteq> Inr None \<or> (\<exists>e. getPublicUrl env path = Inl e)))"
      unfolding code_def h fetched_def path_def by (rule s500)
  qed
  from rest(1) have not_400: "code \<noteq> 400" if "post" and "\<not> nokey" and "\<not> unusable"
    using that by auto
  have all: "(\<not> post \<longrightarrow> code = 405) \<and>
      (post \<and> nokey \<longrightarrow> code = 500) \<and>
      (post \<and> \<not> nokey \<longrightarrow>
         (code = 400 \<longleftrightarrow> unusable) \<and>
         (\<not> unusable \<longrightarrow>
            code \<in> {200, 502, 500} \<and>
            (code = 502 \<longleftrightarrow>
               (\<exists>r t. fetched = Inr r \<and> \<not> ok r \<and> text' r = Inr t)) \<and>
            (code = 200 \<longleftrightarrow>
               (\<exists>r buffer url. fetched = Inr r \<and> ok r \<and> arrayBuffer r = Inr buffer \<and>
                  storage_upload env path buffer = Inr None \<and>
                  getPublicUrl env path = Inr url)) \<and>
            (\<forall>url. code = 200 \<and> getPublicUrl env path = Inr url \<longrightarrow>
               reply = SuccessResponse url path) \<and>
            (code = 500 \<longleftrightarrow>
               (\<exists>e. fetched = Inl e) \<or>
               (\<exists>r e. fetched = Inr r \<and> \<not> ok r \<and> text' r = Inl e) \<or>
               (\<exists>r e. fetched = Inr r \<and> ok r \<and> arrayBuffer r = Inl e) \<or>
               (\<exists>r buffer. fetched = Inr r \<and> ok r \<and> arrayBuffer r = Inr buffer \<and>
                  (storage_upload env path buffer \<noteq> Inr None \<or>
                   (\<exists>e. getPublicUrl env path = Inl e))))))"
  proof (intro conjI)
    show "\<not> post \<longrightarrow> code = 405" by (rule first(1))
    show "post \<and> nokey \<longrightarrow> code = 500" by (rule first(2))
    show "post \<and> \<not> nokey \<longrightarrow>
         (code = 400 \<longleftrightarrow> unusable) \<and>
         (\<not> unusable \<longrightarrow>
            code \<in> {200, 502, 500} \<and>
            (code = 502 \<longleftrightarrow>
               (\<exists>r t. fetched = Inr r \<and> \<not> ok r \<and> text' r = Inr t)) \<and>
            (code = 200 \<longleftrightarrow>
               (\<exists>r buffer url. fetched = Inr r \<and> ok r \<and> arrayBuffer r = Inr buffer \<and>
                  storage_upload env path buffer = Inr None \<and>
                  getPublicUrl env path = Inr url)) \<and>
            (\<forall>url. code = 200 \<and> getPublicUrl env path = Inr url \<longrightarrow>
               reply = SuccessResponse url path) \<and>
            (code = 500 \<longleftrightarrow>
               (\<exists>e. fetched = Inl e) \<or>
               (\<exists>r e. fetched = Inr r \<and> \<not> ok r \<and> text' r = Inl e) \<or>
               (\<exists>r e. fetched = Inr r \<and> ok r \<and> arrayBuffer r = Inl e) \<or>
               (\<exists>r buffer. fetched = Inr r \<and> ok r \<and> arrayBuffer r = Inr buffer \<and>
                  (storage_upload env path buffer \<noteq> Inr None \<or>
                   (\<exists>e. getPublicUrl env path = Inl e)))))"
    proof (intro impI, elim conjE, intro conjI impI)
      assume p: post and k: "\<not> nokey"
      from first(3) not_400 [OF p k] p k show "code = 400 \<longleftrightarrow> unusable"
        by blast
      assume u: "\<not> unusable"
      note r = rest [OF p k u]
      show "code \<in> {200, 502, 500}" by (rule r(1))
      show "code = 502 \<longleftrightarrow>
               (\<exists>r t. fetched = Inr r \<and> \<not> ok r \<and> text' r = Inr t)" by (rule r(2))
      show "code = 200 \<longleftrightarrow>
               (\<exists>r buffer url. fetched = Inr r \<and> ok r \<and> arrayBuffer r = Inr buffer \<and>
                  storage_upload env path buffer = Inr None \<and>
                  getPublicUrl env path = Inr url)" by (rule r(3))
      show "\<forall>url. code = 200 \<and> getPublicUrl env path = Inr url \<longrightarrow>
               reply = SuccessResponse url path" by (rule r(4))
      show "code = 500 \<longleftrightarrow>
               (\<exists>e. fetched = Inl e) \<or>
               (\<exists>r e. fetched = Inr r \<and> \<not> ok r \<and> text' r = Inl e) \<or>
               (\<exists>r e. fetched = Inr r \<and> ok r \<and> arrayBuffer r = Inl e) \<or>
               (\<exists>r buffer. fetched = Inr r \<and> ok r \<and> arrayBuffer r = Inr buffer \<and>
                  (storage_upload env path buffer \<noteq> Inr None \<or>
                   (\<exists>e. getPublicUrl env path = Inl e)))" by (rule r(5))
    qed
  qed
  show ?thesis
    unfolding Let_def
    by (rule all [unfolded code_def fetched_def path_def unusable_def post_def nokey_def
          reply_def])
qed


theorem map_photo_statuses_witness:
  "method' (map_request\<lparr>method' := Some ''GET''\<rparr>) \<noteq> Some ''POST'' \<and>
   status_code (handler map_server (map_request\<lparr>method' := Some ''GET''\<rparr>)) = 405 \<and>
   method' map_request = Some ''POST'' \<and>
   or_string (gmapsKey (map_server\<lparr>GMAPS_KEY := []\<rparr>)) (GMAPS_KEY (map_server\<lparr>GMAPS_KEY := []\<rparr>)) = [] \<and>
   status_code (handler (map_server\<lparr>GMAPS_KEY := []\<rparr>) map_request) = 500 \<and>
   or_string (gmapsKey map_server) (GMAPS_KEY map_server) \<noteq> [] \<and>
   to_number map_server (lat map_request) = JNumber (Num 24.7) \<and>
   to_number map_server (lng map_request) = JNumber (Num 46.6) \<and>
   truthy (reportId map_request) \<and>
   status_code (handler map_server map_request) = 200 \<and>
   getPublicUrl map_server ''map-photos/report-r1.jpg'' =
     Inr ''https://cdn/map-photos/report-r1.jpg'' \<and>
   body (handler map_server map_request) =
     SuccessResponse ''https://cdn/map-photos/report-r1.jpg'' ''map-photos/report-r1.jpg''"
proof -
  have key: "or_string (gmapsKey map_server) (GMAPS_KEY map_server) = ''key''"
    and no_key: "or_string (gmapsKey (map_server\<lparr>GMAPS_KEY := []\<rparr>))
                   (GMAPS_KEY (map_server\<lparr>GMAPS_KEY := []\<rparr>)) = []"
    by (simp_all add: map_server_def gmapsKey_def or_string_def)
  have inputs: "to_number map_server (lat map_request) = JNumber (Num 24.7)"
    "to_number map_server (lng map_request) = JNumber (Num 46.6)"
    "truthy (reportId map_request)" "method' map_request = Some ''POST''"
    by (simp_all add: map_request_def to_number_def)
  have fields: "targetId map_request = JUndefined" "reportId map_request = JString ''r1''"
    "targetType map_request = JUndefined"
    by (simp_all add: map_request_def)
  have url: "getPublicUrl map_server ''map-photos/report-r1.jpg'' =
               Inr ''https://cdn/map-photos/report-r1.jpg''"
    by (simp add: map_server_def)
  have stage: "handler map_server map_request =
      fetch_and_store map_server (JNumber (Num 24.7)) (JNumber (Num 46.6)) ''key''
        (JString ''r1'') ''report''"
    unfolding handler_def Let_def key
    by (simp add: inputs fields)
  have "fetch_and_store map_server (JNumber (Num 24.7)) (JNumber (Num 46.6)) ''key''
        (JString ''r1'') ''report'' =
      respond 200 (SuccessResponse ''https://cdn/map-photos/report-r1.jpg''
                     ''map-photos/report-r1.jpg'')"
    by (simp add: fetch_and_store_def map_server_def safe_char_def or_string_def Let_def)
  with stage have answer: "handler map_server map_request =
      respond 200 (SuccessResponse ''https://cdn/map-photos/report-r1.jpg''
                     ''map-photos/report-r1.jpg'')"
    by simp
  have not_post: "status_code (handler map_server (map_request\<lparr>method' := Some ''GET''\<rparr>)) = 405"
    using map_photo_statuses [of map_server "map_request\<lparr>method' := Some ''GET''\<rparr>"]
    by (simp add: Let_def)
  have keyless: "status_code (handler (map_server\<lparr>GMAPS_KEY := []\<rparr>) map_request) = 500"
    using map_photo_statuses [of "map_server\<lparr>GMAPS_KEY := []\<rparr>" map_request] no_key inputs(4)
    by (simp add: Let_def)
  have usable: "status_code (handler map_server map_request) \<noteq> 400"
    using map_photo_statuses [of map_server map_request] key inputs fields
    by (simp add: Let_def)
  from not_post keyless usable key no_key inputs url answer show ?thesis
    by (simp add: respond_def)
qed

end
